theory Spec2Isabelle
  imports Main "HOL-Library.AList"
begin

section \<open>The table replicator: chunking\<close>

text \<open>
  \<open>Array.prototype.slice(start, end)\<close> on integral indices: a negative index counts from
  the end of the array, both indices are clamped to the array, and an empty range gives
  the empty array.
\<close>

definition slice :: "'a list \<Rightarrow> int \<Rightarrow> int \<Rightarrow> 'a list" where
  "slice arr start fin =
     (let len = int (length arr);
          k = (if start < 0 then max (len + start) 0 else min start len);
          final = (if fin < 0 then max (len + fin) 0 else min fin len)
      in take (nat (final - k)) (drop (nat k) arr))"

text \<open>
  \<open>chunkArray\<close> is a generator: calling it runs nothing and gives an object whose state
  is the array, the stride and the loop variable \<open>i\<close>. Each \<open>next\<close> tests
  \<open>i < arr.length\<close>, yields the slice from \<open>i\<close> to \<open>Math.min(i + stride, arr.length)\<close>
  and advances \<open>i\<close> by the stride. The stride is a JavaScript number; it is modelled as
  an integer, and nothing in the generator requires it to be positive.
\<close>

record 'a chunk_gen =
  gen_arr :: "'a list"
  gen_stride :: int
  gen_i :: int

definition chunkArray :: "'a list \<Rightarrow> int \<Rightarrow> 'a chunk_gen" where
  "chunkArray arr stride = \<lparr>gen_arr = arr, gen_stride = stride, gen_i = 0\<rparr>"

definition chunkArray_next :: "'a chunk_gen \<Rightarrow> ('a list \<times> 'a chunk_gen) option" where
  "chunkArray_next g =
     (if gen_i g < int (length (gen_arr g))
      then Some (slice (gen_arr g) (gen_i g)
                   (min (gen_i g + gen_stride g) (int (length (gen_arr g)))),
                 g\<lparr>gen_i := gen_i g + gen_stride g\<rparr>)
      else None)"

text \<open>
  Draining the generator (what \<open>[...chunkArray(arr, stride)]\<close> or a \<open>for ... of\<close> loop
  without \<open>break\<close> does). With a stride below 1 and a non-empty array the generator never
  finishes, so the result is an option and \<open>None\<close> stands for a loop that never returns.
\<close>

partial_function (option) chunkArray_toList :: "'a chunk_gen \<Rightarrow> 'a list list option" where
  "chunkArray_toList g =
     (case chunkArray_next g of
        None \<Rightarrow> Some []
      | Some (chunk, g') \<Rightarrow>
          Option.bind (chunkArray_toList g') (\<lambda>chunks. Some (chunk # chunks)))"

declare chunkArray_toList.simps [code]


section \<open>The table replicator: services, events and the bounded import\<close>

text \<open>
  A JavaScript \<open>Error\<close> object, with its \<open>name\<close> and \<open>message\<close>. An error thrown by
  the SDK carries the service's exception name; \<open>new Error(msg)\<close> has the name \<open>Error\<close>.
\<close>

datatype error = JsError (err_name: string) (err_message: string)

text \<open>The three SDK clients the script sends commands through.\<close>

datatype client = dynamodbClient | dynamodbDocClient | dynamodbLocalDocClient

datatype 'item write_request = PutRequest 'item

datatype ('tbl, 'item) command =
    DescribeTableCommand string
  | CreateTableCommand "'tbl option"
  | ScanCommand string
  | BatchWriteItemCommand string "'item write_request list"

text \<open>
  A response object; the script reads \<open>.Table\<close> of a describe response and \<open>.Items\<close> of
  a scan response, and either property may be \<open>undefined\<close>.
\<close>

record ('tbl, 'item) response =
  Table :: "'tbl option"
  Items :: "'item list option"

text \<open>
  Everything the script does to the outside, in the order it happens: the commands it
  sends and the lines it prints.
\<close>

datatype ('tbl, 'item) event =
    Send client "('tbl, 'item) command"
  | ConsoleLog string
  | ConsoleError error

text \<open>
  The services are outside the program. A service answers a command sent through a client
  with a response or a thrown error, and the answer may depend on everything that
  happened before (the events so far), so a table created or written earlier in the run
  can change later answers.
\<close>

type_synonym ('tbl, 'item) service =
  "('tbl, 'item) event list \<Rightarrow> client \<Rightarrow> ('tbl, 'item) command
     \<Rightarrow> error + ('tbl, 'item) response"

definition send ::
  "('tbl, 'item) service \<Rightarrow> client \<Rightarrow> ('tbl, 'item) command \<Rightarrow> ('tbl, 'item) event list
     \<Rightarrow> (error + ('tbl, 'item) response) \<times> ('tbl, 'item) event list" where
  "send svc c cmd tr = (svc tr c cmd, tr @ [Send c cmd])"

text \<open>
  The command-line options the functions read as globals. \<open>limit\<close> is a JavaScript number
  (\<open>argv.limit ?? 500\<close>); the model takes the integral ones, of either sign.
\<close>

record config =
  tableName :: string
  limit :: int

definition getTableDescriptionInfo ::
  "('tbl, 'item) service \<Rightarrow> string \<Rightarrow> client \<Rightarrow> ('tbl, 'item) event list
     \<Rightarrow> (error + ('tbl, 'item) response option) \<times> ('tbl, 'item) event list" where
  "getTableDescriptionInfo svc tblName documentClient tr =
     (case send svc documentClient (DescribeTableCommand tblName) tr of
        (Inr resp, tr') \<Rightarrow> (Inr (Some resp), tr')
      | (Inl e, tr') \<Rightarrow>
          (if err_name e = ''ResourceNotFoundException'' then (Inr None, tr')
           else (Inl e, tr')))"

text \<open>
  The \<open>for ... of\<close> loop of \<open>importRemoteDataToLocalDynamoDB\<close>: it pulls the next chunk
  from the generator, sends it as one batch write, adds its length to \<open>limitCounter\<close> and
  breaks once \<open>limitCounter >= limit\<close>. A failed send throws out of the loop. The loop
  is driven by a generator that need not finish, so it returns an option.
\<close>

partial_function (option) importLoop ::
  "('tbl, 'item) service \<Rightarrow> config \<Rightarrow> 'item chunk_gen \<Rightarrow> nat \<Rightarrow> ('tbl, 'item) event list
     \<Rightarrow> ((error + unit) \<times> ('tbl, 'item) event list) option" where
  "importLoop svc cfg itemChunks limitCounter tr =
     (case chunkArray_next itemChunks of
        None \<Rightarrow> Some (Inr (), tr)
      | Some (items, itemChunks') \<Rightarrow>
          (case send svc dynamodbLocalDocClient
                  (BatchWriteItemCommand (tableName cfg) (map PutRequest items)) tr of
             (Inl e, tr') \<Rightarrow> Some (Inl e, tr')
           | (Inr _, tr') \<Rightarrow>
               (if limit cfg \<le> int (limitCounter + length items) then Some (Inr (), tr')
                else importLoop svc cfg itemChunks' (limitCounter + length items) tr')))"

declare importLoop.simps [code]

definition importRemoteDataToLocalDynamoDB ::
  "('tbl, 'item) service \<Rightarrow> config \<Rightarrow> 'item list \<Rightarrow> ('tbl, 'item) event list
     \<Rightarrow> ((error + unit) \<times> ('tbl, 'item) event list) option" where
  "importRemoteDataToLocalDynamoDB svc cfg items tr =
     (let stride = (if limit cfg > 25 then 25 else limit cfg);
          itemChunks = chunkArray items stride
      in importLoop svc cfg itemChunks 0 tr)"

section \<open>The table replicator: orchestration\<close>

definition missing_remote_table_message :: "string \<Rightarrow> string" where
  "missing_remote_table_message tblName =
     ''Table \"'' @ tblName @ ''\" does not exist in the remote DynamoDB, Please create the table first before exporting and importing it to local DynamoDB.''"

definition empty_table_message :: "string \<Rightarrow> string" where
  "empty_table_message tblName =
     ''Table '' @ tblName @ '' is empty, no data to export and import to local DynamoDB''"

definition success_message :: "string \<Rightarrow> string" where
  "success_message tblName =
     ''Table \"'' @ tblName @ ''\" exported from remote DynamoDB and imported to local DynamoDB successfully!''"

definition banner_message :: string where
  "banner_message =
     ''Exporting and importing DynamoDB table from remote DynamoDB to local DynamoDB...'' @ [CHR 0x0A]"

text \<open>
  The body of the \<open>try\<close> block of \<open>exportAndImportDynamoDBTable\<close>, with two of the
  source's own blocks as definitions of their own; \<open>Inl e\<close> is the error a part throws.

  The block under "if not create the table locally" (source lines 145 to 148): when the
  local description is \<open>null\<close>, one create-table command is sent through the local
  client, with the \<open>Table\<close> property of the remote description as its input.
\<close>

definition createLocalTableIfAbsent ::
  "('tbl, 'item) service \<Rightarrow> ('tbl, 'item) response option \<Rightarrow> ('tbl, 'item) response
     \<Rightarrow> ('tbl, 'item) event list \<Rightarrow> (error + unit) \<times> ('tbl, 'item) event list" where
  "createLocalTableIfAbsent svc localTableDescription remoteTableDescription tr =
     (case localTableDescription of
        None \<Rightarrow>
          (case send svc dynamodbLocalDocClient
                  (CreateTableCommand (Table remoteTableDescription)) tr of
             (Inl e, tr') \<Rightarrow> (Inl e, tr')
           | (Inr _, tr') \<Rightarrow> (Inr (), tr'))
      | Some _ \<Rightarrow> (Inr (), tr))"

text \<open>
  The rest of the body (source lines 150 to 161): one scan of the remote table through
  \<open>dynamodbClient\<close>; when \<open>Items\<close> is missing or empty the function logs and returns,
  otherwise it runs the import and logs the success line.
\<close>

definition scanAndImport ::
  "('tbl, 'item) service \<Rightarrow> config \<Rightarrow> ('tbl, 'item) event list
     \<Rightarrow> ((error + unit) \<times> ('tbl, 'item) event list) option" where
  "scanAndImport svc cfg tr =
     (case send svc dynamodbClient (ScanCommand (tableName cfg)) tr of
        (Inl e, tr') \<Rightarrow> Some (Inl e, tr')
      | (Inr tableData, tr') \<Rightarrow>
          (case Items tableData of
             None \<Rightarrow> Some (Inr (), tr' @ [ConsoleLog (empty_table_message (tableName cfg))])
           | Some its \<Rightarrow>
               (if length its = 0
                then Some (Inr (), tr' @ [ConsoleLog (empty_table_message (tableName cfg))])
                else (case importRemoteDataToLocalDynamoDB svc cfg its tr' of
                        None \<Rightarrow> None
                      | Some (Inl e, tr'') \<Rightarrow> Some (Inl e, tr'')
                      | Some (Inr _, tr'') \<Rightarrow>
                          Some (Inr (),
                            tr'' @ [ConsoleLog (success_message (tableName cfg))])))))"

definition exportAndImport_try ::
  "('tbl, 'item) service \<Rightarrow> config \<Rightarrow> ('tbl, 'item) event list
     \<Rightarrow> ((error + unit) \<times> ('tbl, 'item) event list) option" where
  "exportAndImport_try svc cfg tr =
     (case getTableDescriptionInfo svc (tableName cfg) dynamodbDocClient tr of
        (Inl e, tr1) \<Rightarrow> Some (Inl e, tr1)
      | (Inr None, tr1) \<Rightarrow>
          Some (Inl (JsError ''Error'' (missing_remote_table_message (tableName cfg))), tr1)
      | (Inr (Some remoteTableDescription), tr1) \<Rightarrow>
          (case getTableDescriptionInfo svc (tableName cfg) dynamodbLocalDocClient tr1 of
             (Inl e, tr2) \<Rightarrow> Some (Inl e, tr2)
           | (Inr localTableDescription, tr2) \<Rightarrow>
               (case createLocalTableIfAbsent svc localTableDescription
                       remoteTableDescription tr2 of
                  (Inl e, tr3) \<Rightarrow> Some (Inl e, tr3)
                | (Inr _, tr3) \<Rightarrow> scanAndImport svc cfg tr3)))"

text \<open>
  The whole function: it prints the banner, runs the body, and its \<open>catch\<close> prints the
  error with \<open>console.error\<close>. It never rethrows, so the result is the final list of events.
\<close>

definition exportAndImportDynamoDBTable ::
  "('tbl, 'item) service \<Rightarrow> config \<Rightarrow> ('tbl, 'item) event list
     \<Rightarrow> ('tbl, 'item) event list option" where
  "exportAndImportDynamoDBTable svc cfg tr =
     (case exportAndImport_try svc cfg (tr @ [ConsoleLog banner_message]) of
        None \<Rightarrow> None
      | Some (Inl err, tr') \<Rightarrow> Some (tr' @ [ConsoleError err])
      | Some (Inr _, tr') \<Rightarrow> Some tr')"

text \<open>Reading the events: the create-table calls and the batch-write calls, in order.\<close>

fun createTableCalls :: "('tbl, 'item) event list \<Rightarrow> (client \<times> 'tbl option) list" where
  "createTableCalls [] = []"
| "createTableCalls (Send c (CreateTableCommand t) # es) = (c, t) # createTableCalls es"
| "createTableCalls (_ # es) = createTableCalls es"

fun batchWriteCalls :: "('tbl, 'item) event list \<Rightarrow> 'item write_request list list" where
  "batchWriteCalls [] = []"
| "batchWriteCalls (Send c (BatchWriteItemCommand t reqs) # es) = reqs # batchWriteCalls es"
| "batchWriteCalls (_ # es) = batchWriteCalls es"

fun scanCalls :: "('tbl, 'item) event list \<Rightarrow> (client \<times> string) list" where
  "scanCalls [] = []"
| "scanCalls (Send c (ScanCommand t) # es) = (c, t) # scanCalls es"
| "scanCalls (_ # es) = scanCalls es"

fun consoleErrors :: "('tbl, 'item) event list \<Rightarrow> error list" where
  "consoleErrors [] = []"
| "consoleErrors (ConsoleError e # es) = e # consoleErrors es"
| "consoleErrors (_ # es) = consoleErrors es"

text \<open>Shorthands used in the statements: the batch-write event for a list of items, and
  chunk number \<open>k\<close> of a list cut at stride \<open>s\<close>.\<close>

definition batchWrite :: "config \<Rightarrow> 'item list \<Rightarrow> ('tbl, 'item) event" where
  "batchWrite cfg items =
     Send dynamodbLocalDocClient (BatchWriteItemCommand (tableName cfg) (map PutRequest items))"

definition chunk :: "nat \<Rightarrow> 'a list \<Rightarrow> nat \<Rightarrow> 'a list" where
  "chunk s items k = take s (drop (k * s) items)"

text \<open>
  The specification's \<open>firstChunkCountReachingL\<close>, in its words "the running count at the
  first chunk that reaches L": chunks are written in full, so on a long enough list the
  running count first reaches \<open>L\<close> at the least multiple of the stride that is at least \<open>L\<close>.
\<close>

definition firstChunkCountReachingL :: "int \<Rightarrow> nat" where
  "firstChunkCountReachingL L =
     (let stride = nat (if L > 25 then 25 else L)
      in stride * ((nat L + stride - 1) div stride))"

subsection \<open>Example services\<close>

text \<open>A service that accepts every command and has no data.\<close>

definition accepting_service :: "(nat, nat) service" where
  "accepting_service h c cmd = Inr \<lparr>Table = None, Items = None\<rparr>"

text \<open>
  A service that enforces the batch-write ceiling: a batch write is accepted only with 1
  to 25 put requests, and refused with a validation error otherwise.
\<close>

definition batch_ceiling_service :: "(nat, nat) service" where
  "batch_ceiling_service h c cmd =
     (case cmd of
        BatchWriteItemCommand t reqs \<Rightarrow>
          (if 1 \<le> length reqs \<and> length reqs \<le> 25 then Inr \<lparr>Table = None, Items = None\<rparr>
           else Inl (JsError ''ValidationException''
                  ''1 validation error detected: batch size must be between 1 and 25''))
      | _ \<Rightarrow> Inr \<lparr>Table = None, Items = None\<rparr>)"

text \<open>
  A service with a remote table and a local endpoint: the flags say whether the remote and
  the local table exist, the list is what a scan returns. A describe of a missing table
  throws \<open>ResourceNotFoundException\<close>; a describe through \<open>dynamodbClient\<close> is refused.
\<close>

definition example_service :: "bool \<Rightarrow> bool \<Rightarrow> nat list \<Rightarrow> (nat, nat) service" where
  "example_service remoteExists localExists its h c cmd =
     (case cmd of
        DescribeTableCommand t \<Rightarrow>
          (if (c = dynamodbLocalDocClient \<and> \<not> localExists) \<or> (c = dynamodbDocClient \<and> \<not> remoteExists)
           then Inl (JsError ''ResourceNotFoundException'' ''Cannot do operations on a non-existent table'')
           else if c = dynamodbClient then Inl (JsError ''AccessDeniedException'' ''not authorized'')
           else Inr \<lparr>Table = Some 7, Items = None\<rparr>)
      | ScanCommand t \<Rightarrow> Inr \<lparr>Table = None, Items = Some its\<rparr>
      | _ \<Rightarrow> Inr \<lparr>Table = None, Items = None\<rparr>)"

section \<open>The environment collector\<close>

text \<open>
  \<open>get-vars.js\<close> walks a CloudFormation stack and merges the environment variables of its
  Lambda functions. A resource summary as the script reads it: its type and its physical
  and logical identifiers.
\<close>

record stack_resource =
  ResourceType :: string
  PhysicalResourceId :: string
  LogicalResourceId :: string

record list_stack_resources_output =
  StackResourceSummaries :: "stack_resource list option"

record environment_response =
  Variables :: "(string \<rightharpoonup> string) option"

record function_configuration =
  Environment :: "environment_response option"

text \<open>
  What the collector does to the outside, in order: the two kinds of SDK call, each with
  the name it was called with and what it returned or threw, and the lines it logs.
\<close>

datatype gv_event =
    ListStackResourcesCall "string option" "error + list_stack_resources_output"
  | GetFunctionConfigurationCall string "error + function_configuration"
  | Log string

text \<open>The two services; as for the replicator, an answer may depend on the events so far.\<close>

type_synonym cloudformation_service =
  "gv_event list \<Rightarrow> string option \<Rightarrow> error + list_stack_resources_output"

type_synonym lambda_service =
  "gv_event list \<Rightarrow> string \<Rightarrow> error + function_configuration"

text \<open>
  The script's globals \<open>functionCount\<close>, \<open>merged\<close> and \<open>stacks\<close>, with the events. A \<open>page\<close>
  and \<open>stacks\<close> are objects used as dictionaries; they are association lists in insertion
  order, updated in place as a property assignment does.
\<close>

type_synonym page = "(string \<times> (string \<rightharpoonup> string)) list"

record gv_state =
  functionCount :: nat
  merged :: "string \<rightharpoonup> string"
  stacks :: "(string \<times> page) list"
  events :: "gv_event list"

definition initial_state :: gv_state where
  "initial_state = \<lparr>functionCount = 0, merged = Map.empty, stacks = [], events = []\<rparr>"

text \<open>\<open>String.prototype.split\<close> with a one-character separator, and \<open>array[n]\<close>, which is
  \<open>undefined\<close> out of range.\<close>

fun split_on :: "char \<Rightarrow> string \<Rightarrow> string list" where
  "split_on c [] = [[]]"
| "split_on c (x # xs) =
     (if x = c then [] # split_on c xs
      else (case split_on c xs of
              [] \<Rightarrow> [[x]]
            | y # ys \<Rightarrow> (x # y) # ys))"

definition index :: "'a list \<Rightarrow> nat \<Rightarrow> 'a option" where
  "index xs n = (if n < length xs then Some (xs ! n) else None)"

text \<open>What a template literal prints for a stack name (\<open>undefined\<close> prints as the word) and
  for a count (its decimal digits).\<close>

definition js_string_of :: "string option \<Rightarrow> string" where
  "js_string_of name = (case name of None \<Rightarrow> ''undefined'' | Some s \<Rightarrow> s)"

fun string_of_nat :: "nat \<Rightarrow> string" where
  "string_of_nat n =
     (if n < 10 then [char_of (48 + n)]
      else string_of_nat (n div 10) @ [char_of (48 + n mod 10)])"

declare string_of_nat.simps [simp del]

definition not_iterable_error :: error where
  "not_iterable_error =
     JsError ''TypeError'' ''stackResources.StackResourceSummaries is not iterable''"

text \<open>
  The body of \<open>if (resource.ResourceType === 'AWS::Lambda::Function')\<close>: count the
  function, fetch its configuration, and when it has \<open>Environment.Variables\<close> record them in
  the page under the logical id and spread them over \<open>merged\<close>.
\<close>

definition collectFunctionVariables ::
  "lambda_service \<Rightarrow> stack_resource \<Rightarrow> page \<Rightarrow> gv_state \<Rightarrow> (error + page) \<times> gv_state" where
  "collectFunctionVariables lambda resource page st =
     (let st1 = st\<lparr>functionCount := functionCount st + 1\<rparr>;
          r = lambda (events st1) (PhysicalResourceId resource);
          st2 = st1\<lparr>events := events st1
                   @ [GetFunctionConfigurationCall (PhysicalResourceId resource) r]\<rparr>
      in case r of
           Inl e \<Rightarrow> (Inl e, st2)
         | Inr lambdaConfig \<Rightarrow>
             (case Environment lambdaConfig of
                None \<Rightarrow> (Inr page, st2)
              | Some env \<Rightarrow>
                  (case Variables env of
                     None \<Rightarrow> (Inr page, st2)
                   | Some vars \<Rightarrow>
                       (Inr (AList.update (LogicalResourceId resource) vars page),
                        st2\<lparr>merged := merged st2 ++ vars\<rparr>))))"

text \<open>
  The part of \<open>listStackResources\<close> after its loop: the two log lines, and the page stored
  under the stack's name when it is not empty.
\<close>

definition completeStack :: "string option \<Rightarrow> page \<Rightarrow> gv_state \<Rightarrow> gv_state" where
  "completeStack stackName page st =
     (let st1 = st\<lparr>events := events st
                   @ [Log (''completed stack: '' @ js_string_of stackName),
                      Log (''functionCount: '' @ string_of_nat (functionCount st))]\<rparr>
      in if length (map fst page) \<noteq> 0
         then st1\<lparr>stacks := AList.update (js_string_of stackName) page (stacks st1)\<rparr>
         else st1)"

text \<open>
  \<open>listStackResources\<close> and its \<open>for ... of\<close> loop over the summaries. The function calls
  itself for every nested stack, as deep as the service's answers lead, so the model
  carries fuel that bounds the nesting depth: \<open>None\<close> means the fuel ran out. \<open>Inl e\<close> is a
  rejected promise. The recursive call passes no \<open>nested\<close> argument, so it runs with the
  default \<open>true\<close>.
\<close>

fun listStackResources ::
  "nat \<Rightarrow> cloudformation_service \<Rightarrow> lambda_service \<Rightarrow> string option \<Rightarrow> bool \<Rightarrow> gv_state
     \<Rightarrow> ((error + unit) \<times> gv_state) option"
and forEachResource ::
  "nat \<Rightarrow> cloudformation_service \<Rightarrow> lambda_service \<Rightarrow> bool \<Rightarrow> stack_resource list \<Rightarrow> page
     \<Rightarrow> gv_state \<Rightarrow> ((error + page) \<times> gv_state) option"
where
  "listStackResources 0 cloudformation lambda stackName nested st = None"
| "listStackResources (Suc fuel) cloudformation lambda stackName nested st =
     (let r = cloudformation (events st) stackName;
          st1 = st\<lparr>events := events st @ [ListStackResourcesCall stackName r]\<rparr>
      in case r of
           Inl e \<Rightarrow> Some (Inl e, st1)
         | Inr stackResources \<Rightarrow>
             (case StackResourceSummaries stackResources of
                None \<Rightarrow> Some (Inl not_iterable_error, st1)
              | Some summaries \<Rightarrow>
                  (case forEachResource fuel cloudformation lambda nested summaries [] st1 of
                     None \<Rightarrow> None
                   | Some (Inl e, st2) \<Rightarrow> Some (Inl e, st2)
                   | Some (Inr page, st2) \<Rightarrow> Some (Inr (), completeStack stackName page st2))))"
| "forEachResource fuel cloudformation lambda nested [] page st = Some (Inr page, st)"
| "forEachResource fuel cloudformation lambda nested (resource # rest) page st =
     (case (if ResourceType resource = ''AWS::CloudFormation::Stack'' \<and> nested
            then listStackResources fuel cloudformation lambda
                   (index (split_on CHR ''/'' (PhysicalResourceId resource)) 1) True st
            else Some (Inr (), st)) of
        None \<Rightarrow> None
      | Some (Inl e, st1) \<Rightarrow> Some (Inl e, st1)
      | Some (Inr _, st1) \<Rightarrow>
          (case (if ResourceType resource = ''AWS::Lambda::Function''
                 then collectFunctionVariables lambda resource page st1
                 else (Inr page, st1)) of
             (Inl e, st2) \<Rightarrow> Some (Inl e, st2)
           | (Inr page', st2) \<Rightarrow>
               forEachResource fuel cloudformation lambda nested rest page' st2))"

text \<open>
  Reading the events: the functions whose configuration declared variables, with those
  variables, in the order they were visited; and the number of configuration calls.
\<close>

fun variableVisits :: "gv_event list \<Rightarrow> (string \<times> (string \<rightharpoonup> string)) list" where
  "variableVisits [] = []"
| "variableVisits (GetFunctionConfigurationCall f (Inr lambdaConfig) # es) =
     (case Environment lambdaConfig of
        None \<Rightarrow> variableVisits es
      | Some env \<Rightarrow>
          (case Variables env of
             None \<Rightarrow> variableVisits es
           | Some vars \<Rightarrow> (f, vars) # variableVisits es))"
| "variableVisits (_ # es) = variableVisits es"

fun configurationCalls :: "gv_event list \<Rightarrow> string list" where
  "configurationCalls [] = []"
| "configurationCalls (GetFunctionConfigurationCall f r # es) = f # configurationCalls es"
| "configurationCalls (_ # es) = configurationCalls es"

text \<open>
  The variables a configuration declares (\<open>lambdaConfig.Environment.Variables\<close>, when both
  are there), and the value a function gives to a variable \<open>X\<close> when its configuration is
  \<open>configuration F\<close>.
\<close>

definition variablesOf :: "function_configuration \<Rightarrow> (string \<rightharpoonup> string) option" where
  "variablesOf lambdaConfig =
     (case Environment lambdaConfig of None \<Rightarrow> None | Some env \<Rightarrow> Variables env)"

definition variableOfFunction ::
  "(string \<Rightarrow> error + function_configuration) \<Rightarrow> string \<Rightarrow> string \<Rightarrow> string option" where
  "variableOfFunction configuration F X =
     (case configuration F of
        Inl e \<Rightarrow> None
      | Inr lambdaConfig \<Rightarrow>
          (case variablesOf lambdaConfig of None \<Rightarrow> None | Some vars \<Rightarrow> vars X))"

text \<open>
  The specification's visiting order, in its words "stack resource listing order,
  depth-first for nested stacks": the Lambda functions of a stack in the order of its
  listing, with the functions of a nested stack at the place of the nested-stack resource.
  \<open>listing\<close> gives the resources of a stack, \<open>depth\<close> bounds the nesting. It is written
  from the specification, to be compared with the order in which \<open>listStackResources\<close>
  fetches configurations.
\<close>

fun depthFirstFunctions ::
  "nat \<Rightarrow> (string option \<Rightarrow> error + list_stack_resources_output) \<Rightarrow> string option \<Rightarrow> bool
     \<Rightarrow> string list" where
  "depthFirstFunctions 0 listing stackName nested = []"
| "depthFirstFunctions (Suc depth) listing stackName nested =
     (case listing stackName of
        Inl e \<Rightarrow> []
      | Inr out \<Rightarrow>
          (case StackResourceSummaries out of
             None \<Rightarrow> []
           | Some summaries \<Rightarrow>
               concat (map (\<lambda>resource.
                   (if ResourceType resource = ''AWS::CloudFormation::Stack'' \<and> nested
                    then depthFirstFunctions depth listing
                           (index (split_on CHR ''/'' (PhysicalResourceId resource)) 1) True
                    else [])
                 @ (if ResourceType resource = ''AWS::Lambda::Function''
                    then [PhysicalResourceId resource] else []))
                 summaries)))"

text \<open>
  Used in the proofs: the visits with variables that a list of functions gives under
  \<open>configuration\<close>, and the relation "from \<open>st\<close> to \<open>st'\<close> the configurations of exactly
  the functions \<open>fs\<close> were fetched, in this order, each answered by \<open>configuration\<close>".
\<close>

fun visitsOf ::
  "(string \<Rightarrow> error + function_configuration) \<Rightarrow> string list
     \<Rightarrow> (string \<times> (string \<rightharpoonup> string)) list" where
  "visitsOf configuration [] = []"
| "visitsOf configuration (f # fs) =
     (case configuration f of
        Inl e \<Rightarrow> visitsOf configuration fs
      | Inr lambdaConfig \<Rightarrow>
          (case variablesOf lambdaConfig of
             None \<Rightarrow> visitsOf configuration fs
           | Some vars \<Rightarrow> (f, vars) # visitsOf configuration fs))"

definition answered ::
  "(string \<Rightarrow> error + function_configuration) \<Rightarrow> gv_state \<Rightarrow> gv_state \<Rightarrow> string list \<Rightarrow> bool" where
  "answered configuration st st' fs =
     (\<exists>new. events st' = events st @ new
          \<and> configurationCalls new = fs
          \<and> variableVisits new = visitsOf configuration fs)"


text \<open>
  The relation between the state before and after a piece of the traversal, used in the
  proofs: the later state has the earlier events and some more, its \<open>merged\<close> is the earlier
  one with the variables of the added visits spread over it in order, and its
  \<open>functionCount\<close> has grown by the number of added configuration calls.
\<close>

definition extends :: "gv_state \<Rightarrow> gv_state \<Rightarrow> bool" where
  "extends st st' =
     (\<exists>new. events st' = events st @ new
          \<and> merged st' = foldl (++) (merged st) (map snd (variableVisits new))
          \<and> functionCount st' = functionCount st + length (configurationCalls new))"

text \<open>
  An example: the stack \<open>parent\<close> lists a function, a nested stack whose physical id has
  \<open>child\<close> as its second path segment, and two more functions; the stack \<open>child\<close> lists
  one function. The first two functions of \<open>parent\<close> define the variable \<open>X\<close>, the other
  functions define other variables.
\<close>

definition parent_resources :: "stack_resource list" where
  "parent_resources =
     [\<lparr>ResourceType = ''AWS::Lambda::Function'', PhysicalResourceId = ''fn-a'',
        LogicalResourceId = ''A''\<rparr>,
      \<lparr>ResourceType = ''AWS::CloudFormation::Stack'', PhysicalResourceId = ''arn:stack/child/1'',
        LogicalResourceId = ''Nested''\<rparr>,
      \<lparr>ResourceType = ''AWS::Lambda::Function'', PhysicalResourceId = ''fn-b'',
        LogicalResourceId = ''B''\<rparr>,
      \<lparr>ResourceType = ''AWS::Lambda::Function'', PhysicalResourceId = ''fn-d'',
        LogicalResourceId = ''D''\<rparr>]"

definition example_listing :: "string option \<Rightarrow> error + list_stack_resources_output" where
  "example_listing stackName =
     (if stackName = Some ''parent'' then
        Inr \<lparr>StackResourceSummaries = Some parent_resources\<rparr>
      else if stackName = Some ''child'' then
        Inr \<lparr>StackResourceSummaries = Some
          [\<lparr>ResourceType = ''AWS::Lambda::Function'', PhysicalResourceId = ''fn-c'',
             LogicalResourceId = ''C''\<rparr>]\<rparr>
      else Inl (JsError ''ValidationError'' ''Stack does not exist''))"

definition example_configuration :: "string \<Rightarrow> error + function_configuration" where
  "example_configuration functionName =
     (if functionName = ''fn-a''
      then Inr \<lparr>Environment = Some \<lparr>Variables = Some [''X'' \<mapsto> ''1'']\<rparr>\<rparr>
      else if functionName = ''fn-b''
      then Inr \<lparr>Environment = Some \<lparr>Variables = Some [''X'' \<mapsto> ''2'']\<rparr>\<rparr>
      else if functionName = ''fn-c''
      then Inr \<lparr>Environment = Some \<lparr>Variables = Some [''Z'' \<mapsto> ''c'']\<rparr>\<rparr>
      else if functionName = ''fn-d''
      then Inr \<lparr>Environment = Some \<lparr>Variables = Some [''Y'' \<mapsto> ''3'']\<rparr>\<rparr>
      else Inr \<lparr>Environment = None\<rparr>)"

definition example_cloudformation :: cloudformation_service where
  "example_cloudformation h stackName = example_listing stackName"

definition example_lambda :: lambda_service where
  "example_lambda h functionName = example_configuration functionName"

text \<open>
  A second example: one stack that lists three functions, \<open>f1\<close>, \<open>f2\<close> and \<open>f3\<close> in this
  order, each defining \<open>X\<close> with its own value; and the script's traversal of it from the
  initial state.
\<close>

definition three_definers_listing :: "string option \<Rightarrow> error + list_stack_resources_output" where
  "three_definers_listing stackName =
     (if stackName = Some ''stack'' then
        Inr \<lparr>StackResourceSummaries = Some
          [\<lparr>ResourceType = ''AWS::Lambda::Function'', PhysicalResourceId = ''f1'',
             LogicalResourceId = ''F1''\<rparr>,
           \<lparr>ResourceType = ''AWS::Lambda::Function'', PhysicalResourceId = ''f2'',
             LogicalResourceId = ''F2''\<rparr>,
           \<lparr>ResourceType = ''AWS::Lambda::Function'', PhysicalResourceId = ''f3'',
             LogicalResourceId = ''F3''\<rparr>]\<rparr>
      else Inl (JsError ''ValidationError'' ''Stack does not exist''))"

definition three_definers_configuration :: "string \<Rightarrow> error + function_configuration" where
  "three_definers_configuration functionName =
     (if functionName = ''f1''
      then Inr \<lparr>Environment = Some \<lparr>Variables = Some [''X'' \<mapsto> ''1'']\<rparr>\<rparr>
      else if functionName = ''f2''
      then Inr \<lparr>Environment = Some \<lparr>Variables = Some [''X'' \<mapsto> ''2'']\<rparr>\<rparr>
      else Inr \<lparr>Environment = Some \<lparr>Variables = Some [''X'' \<mapsto> ''3'']\<rparr>\<rparr>)"

definition three_definers_run :: "((error + unit) \<times> gv_state) option" where
  "three_definers_run =
     listStackResources (Suc 0) (\<lambda>h. three_definers_listing) (\<lambda>h. three_definers_configuration)
       (Some ''stack'') True initial_state"

section \<open>Properties of the chunker\<close>

lemma ceil_div_less: "0 < s \<Longrightarrow> (j * s < n) = (j < (n + s - 1) div (s::nat))"
proof -
  assume s: "0 < s"
  have "(j < (n + s - 1) div s) = (Suc j * s \<le> n + s - 1)"
    using s by (simp add: less_eq_div_iff_mult_less_eq Suc_le_eq[symmetric] del: mult_Suc)
  thus ?thesis using s by auto
qed

lemma ceil_div_cases:
  assumes "0 < s"
  shows "(n + s - 1) div s = (if n mod s = 0 then n div s else Suc (n div (s::nat)))"
proof (cases "n mod s = 0")
  case True
  hence "n = n div s * s" by (metis div_mult_mod_eq add.right_neutral)
  then obtain q where q: "n = q * s" ..
  have "(s - 1 + q * s) div s = (s - 1) div s + q" using assms by (simp only: div_mult_self1)
  moreover have "(s - 1) div s = 0" using assms by simp
  moreover have "n + s - 1 = s - 1 + q * s" using assms q by simp
  ultimately show ?thesis using True q assms by simp
next
  case False
  define r where "r = n mod s"
  define q where "q = n div s"
  have n: "n = q * s + r" and r: "0 < r" "r < s" using False assms by (simp_all add: r_def q_def)
  have "n + s - 1 = (r - 1) + Suc q * s" using n r by simp
  moreover have "((r - 1) + Suc q * s) div s = (r - 1) div s + Suc q"
    using assms by (simp only: div_mult_self1)
  ultimately have "(n + s - 1) div s = (r - 1) div s + Suc q" by simp
  thus ?thesis using False r by (simp add: q_def)
qed

lemma last_chunk_length:
  assumes "0 < s" "k < (n + s - 1) div s"
  shows "min s (n - k * s) =
         (if Suc k < (n + s - 1) div s then s else if n mod s = 0 then s else n mod (s::nat))"
proof (cases "Suc k < (n + s - 1) div s")
  case True
  hence "Suc k * s < n" using ceil_div_less[OF assms(1), of "Suc k" n] by simp
  thus ?thesis using True by simp
next
  case False
  hence k: "Suc k = (n + s - 1) div s" using assms by simp
  show ?thesis
  proof (cases "n mod s = 0")
    case True
    hence "Suc k = n div s" using k ceil_div_cases[OF assms(1), of n] by simp
    hence "n = Suc k * s" using True by (metis div_mult_mod_eq add.right_neutral)
    then show ?thesis using True False by simp
  next
    case F: False
    hence "k = n div s" using k ceil_div_cases[OF assms(1), of n] by simp
    hence "n - k * s = n mod s" by (simp add: minus_div_mult_eq_mod)
    then show ?thesis using F False assms by simp
  qed
qed

lemma concat_chunks_take:
  "concat (map (\<lambda>k. take s (drop (k * s) arr)) [0..<j]) = take (j * s) arr"
  by (induction j) (simp_all add: take_add[symmetric] add.commute del: take_add)

lemma slice_chunk:
  "i < length arr \<Longrightarrow> 0 < s \<Longrightarrow>
   slice arr (int i) (min (int i + int s) (int (length arr))) = take s (drop i arr)"
  by (auto simp: slice_def Let_def min_def nat_diff_distrib' nat_add_distrib)

lemma chunkArray_next_full:
  assumes "1 \<le> S" "j * nat S < length arr"
  shows "chunkArray_next \<lparr>gen_arr = arr, gen_stride = S, gen_i = int (j * nat S)\<rparr>
         = Some (take (nat S) (drop (j * nat S) arr),
                 \<lparr>gen_arr = arr, gen_stride = S, gen_i = int (Suc j * nat S)\<rparr>)"
  using assms slice_chunk[of "j * nat S" arr "nat S"]
  by (simp add: chunkArray_next_def algebra_simps del: of_nat_mult)

lemma chunkArray_next_done:
  assumes "\<not> j * nat S < length arr"
  shows "chunkArray_next \<lparr>gen_arr = arr, gen_stride = S, gen_i = int (j * nat S)\<rparr> = None"
  using assms by (simp add: chunkArray_next_def del: of_nat_mult)

lemma chunkArray_toList_from:
  assumes "1 \<le> S"
  shows "chunkArray_toList \<lparr>gen_arr = arr, gen_stride = S, gen_i = int (j * nat S)\<rparr>
         = Some (map (\<lambda>k. take (nat S) (drop (k * nat S) arr))
                   [j ..< (length arr + nat S - 1) div nat S])"
proof (induction "(length arr + nat S - 1) div nat S - j" arbitrary: j)
  case 0
  hence "\<not> j * nat S < length arr" using assms by (simp add: ceil_div_less)
  then show ?case using 0
    by (subst chunkArray_toList.simps) (simp add: chunkArray_next_done del: of_nat_mult)
next
  case (Suc x)
  hence lt: "j * nat S < length arr" and j: "j < (length arr + nat S - 1) div nat S"
    using assms by (simp_all add: ceil_div_less)
  have ih: "chunkArray_toList \<lparr>gen_arr = arr, gen_stride = S, gen_i = int (Suc j * nat S)\<rparr> =
    Some (map (\<lambda>k. take (nat S) (drop (k * nat S) arr))
            [Suc j..<(length arr + nat S - 1) div nat S])"
    using Suc(1)[of "Suc j"] Suc(2) by simp
  show ?case using j
    by (subst chunkArray_toList.simps)
       (simp add: chunkArray_next_full[OF assms lt] ih upt_conv_Cons del: of_nat_mult mult_Suc)
qed

text \<open>
  C3. For every sequence \<open>arr\<close> of length \<open>N\<close> and every stride \<open>S \<ge> 1\<close>, draining the
  chunker returns, and gives exactly \<open>ceil (N / S)\<close> chunks; chunk \<open>k\<close> is the contiguous
  run of at most \<open>S\<close> elements that starts at index \<open>k * S\<close> (so the chunks come in order);
  every chunk but the last has size \<open>S\<close>, the last has size \<open>N mod S\<close>, or \<open>S\<close> when \<open>S\<close>
  divides \<open>N\<close>; and the concatenation of the chunks is \<open>arr\<close>.
\<close>

theorem chunkArray_partitions:
  assumes "1 \<le> S"
  shows "\<exists>chunks. chunkArray_toList (chunkArray arr S) = Some chunks
           \<and> length chunks = (length arr + nat S - 1) div nat S
           \<and> (\<forall>k < length chunks.
                  chunks ! k = take (nat S) (drop (k * nat S) arr)
                \<and> length (chunks ! k) =
                    (if Suc k < length chunks then nat S
                     else if length arr mod nat S = 0 then nat S
                     else length arr mod nat S))
           \<and> concat chunks = arr"
proof -
  define m where "m = (length arr + nat S - 1) div nat S"
  define chunks where "chunks = map (\<lambda>k. take (nat S) (drop (k * nat S) arr)) [0..<m]"
  have s: "0 < nat S" using assms by simp
  have run: "chunkArray_toList (chunkArray arr S) = Some chunks"
    using chunkArray_toList_from[OF assms, of arr 0] by (simp add: chunkArray_def chunks_def m_def)
  have len: "length chunks = m" by (simp add: chunks_def)
  have nth: "chunks ! k = take (nat S) (drop (k * nat S) arr)" if "k < m" for k
    using that by (simp add: chunks_def)
  have size: "length (chunks ! k) =
                (if Suc k < m then nat S
                 else if length arr mod nat S = 0 then nat S else length arr mod nat S)"
    if "k < m" for k
  proof -
    have "length (chunks ! k) = min (nat S) (length arr - k * nat S)"
      using that by (simp add: nth min.commute)
    thus ?thesis using that last_chunk_length[OF s, of k "length arr"] by (simp only: m_def)
  qed
  have "\<not> m * nat S < length arr" using ceil_div_less[OF s, of m "length arr"] by (simp add: m_def)
  hence cat: "concat chunks = arr" by (simp add: chunks_def concat_chunks_take)
  show ?thesis using run len nth size cat by (simp add: m_def)
qed

theorem chunkArray_partitions_witness:
  "(1::int) \<le> 2 \<and>
   (\<exists>chunks. chunkArray_toList (chunkArray [10, 20, 30, 40, 50 :: nat] 2) = Some chunks
      \<and> length chunks = 3
      \<and> chunks ! 2 = [50]
      \<and> concat chunks = [10, 20, 30, 40, 50])"
proof -
  have h: "(1::int) \<le> 2" by simp
  from chunkArray_partitions [OF h, of "[10, 20, 30, 40, 50 :: nat]"]
  obtain chunks where run: "chunkArray_toList (chunkArray [10, 20, 30, 40, 50 :: nat] 2) = Some chunks"
    and len: "length chunks = (length [10, 20, 30, 40, 50 :: nat] + nat 2 - 1) div nat 2"
    and nth: "\<forall>k < length chunks. chunks ! k = take (nat 2) (drop (k * nat 2) [10, 20, 30, 40, 50])"
    and cat: "concat chunks = [10, 20, 30, 40, 50]"
    by blast
  have l3: "length chunks = 3" using len by simp
  hence "chunks ! 2 = [50]" using nth by simp
  thus ?thesis using h run l3 cat by blast
qed


section \<open>Properties of the bounded import\<close>

lemma ceil_mult_ge: "0 < s \<Longrightarrow> n \<le> ((n + s - 1) div s) * (s::nat)"
  using ceil_div_less[of s "(n + s - 1) div s" n] by simp

lemma ceil_mult_lt: "0 < s \<Longrightarrow> ((n + s - 1) div s) * (s::nat) < n + s"
proof -
  assume s: "0 < s"
  have "((n + s - 1) div s) * s \<le> n + s - 1" by simp
  thus ?thesis using s by linarith
qed

lemma ceil_mono: "n \<le> n' \<Longrightarrow> (n + s - 1) div s \<le> (n' + s - 1) div (s::nat)"
  by (simp add: div_le_mono)

lemma ceil_of_multiple: "0 < s \<Longrightarrow> (k * s + s - 1) div s = (k::nat)"
proof -
  assume s: "0 < s"
  have "(s - 1 + k * s) div s = (s - 1) div s + k" using s by (simp only: div_mult_self1)
  moreover have "k * s + s - 1 = s - 1 + k * s" using s by simp
  ultimately show ?thesis using s by simp
qed

lemma batch_count_formula:
  assumes L: "1 \<le> L" and s: "s = (if 25 < L then 25 else L)"
  shows "min ((N + s - 1) div s) ((L + s - 1) div s) = (min (s * ((L + s - 1) div s)) N + 24) div (25::nat)"
proof (cases "25 < L")
  case True
  hence s25: "s = 25" using s by simp
  let ?cL = "(L + 25 - 1) div 25"
  show ?thesis
  proof (cases "N \<le> 25 * ?cL")
    case le: True
    hence "(N + 25 - 1) div 25 \<le> (25 * ?cL + 25 - 1) div 25" by (rule ceil_mono)
    also have "\<dots> = ?cL" using ceil_of_multiple[of 25 ?cL] by (simp add: mult.commute)
    finally show ?thesis using le by (simp add: s25 min_def)
  next
    case gt: False
    hence "(25 * ?cL + 25 - 1) div 25 \<le> (N + 25 - 1) div 25" by (intro ceil_mono) simp
    moreover have "(25 * ?cL + 25 - 1) div 25 = ?cL" using ceil_of_multiple[of 25 ?cL] by (simp add: mult.commute)
    ultimately show ?thesis using gt by (simp add: s25 min_def)
  qed
next
  case False
  hence sL: "s = L" using s by simp
  have cL: "(L + L - 1) div L = 1" using L ceil_of_multiple[of L 1] by simp
  show ?thesis
  proof (cases "N = 0")
    case True
    then show ?thesis using L unfolding sL cL by simp
  next
    case N: False
    hence "1 \<le> (N + L - 1) div L" using ceil_div_less[of L 0 N] L by simp
    hence "min ((N + L - 1) div L) 1 = 1" by simp
    moreover have "(min L N + 24) div 25 = 1" using N L False by (intro div_nat_eqI) (simp_all add: min_def)
    ultimately show ?thesis unfolding sL cL by simp
  qed
qed

lemma chunkArray_next_first:
  assumes "items \<noteq> []" "1 \<le> S"
  shows "chunkArray_next (chunkArray items S)
         = Some (take (nat S) items, \<lparr>gen_arr = items, gen_stride = S, gen_i = S\<rparr>)"
  using assms chunkArray_next_full[of S 0 items] by (simp add: chunkArray_def)

lemma chunkArray_next_zero:
  assumes "items \<noteq> []"
  shows "chunkArray_next (chunkArray items 0)
         = Some ([], \<lparr>gen_arr = items, gen_stride = 0, gen_i = 0\<rparr>)"
  using assms by (simp add: chunkArray_def chunkArray_next_def slice_def)

lemma import_small_limit:
  assumes "1 \<le> limit cfg" "limit cfg \<le> 25" "items \<noteq> []"
  shows "importRemoteDataToLocalDynamoDB svc cfg items tr =
    Some (case svc tr dynamodbLocalDocClient (BatchWriteItemCommand (tableName cfg) (map PutRequest (take (nat (limit cfg)) items))) of
            Inl e \<Rightarrow> Inl e | Inr _ \<Rightarrow> Inr (),
          tr @ [Send dynamodbLocalDocClient (BatchWriteItemCommand (tableName cfg) (map PutRequest (take (nat (limit cfg)) items)))])"
proof -
  let ?g' = "\<lparr>gen_arr = items, gen_stride = limit cfg, gen_i = limit cfg\<rparr>"
  have nx2: "importLoop svc cfg ?g' c tr' = Some (Inr (), tr')"
    if "\<not> limit cfg \<le> int (length items)" for c tr'
    using that by (subst importLoop.simps) (simp add: chunkArray_next_def)
  have len: "length (take (nat (limit cfg)) items) = length items" if "\<not> limit cfg \<le> int (min (length items) (nat (limit cfg)))"
    using that assms by (simp add: min_def split: if_splits)
  have stride: "(if limit cfg > 25 then 25 else limit cfg) = limit cfg" using assms by simp
  show ?thesis
    unfolding importRemoteDataToLocalDynamoDB_def Let_def stride
    using assms nx2
    by (subst importLoop.simps) (simp add: chunkArray_next_first send_def split: sum.splits)
qed

lemma importLoop_total:
  assumes "1 \<le> gen_stride g" "0 \<le> gen_i g"
  shows "\<exists>r new. importLoop svc cfg g c tr = Some (r, tr @ new) \<and> createTableCalls new = [] \<and> scanCalls new = []"
  using assms
proof (induction "nat (int (length (gen_arr g)) - gen_i g)" arbitrary: g c tr rule: less_induct)
  case less
  show ?case
  proof (cases "chunkArray_next g")
    case None
    then show ?thesis by (subst importLoop.simps) simp
  next
    case (Some a)
    then obtain items g' where a: "chunkArray_next g = Some (items, g')" by (cases a) auto
    hence g': "g' = g\<lparr>gen_i := gen_i g + gen_stride g\<rparr>" and lt: "gen_i g < int (length (gen_arr g))"
      by (auto simp: chunkArray_next_def split: if_splits)
    let ?tr' = "tr @ [Send dynamodbLocalDocClient (BatchWriteItemCommand (tableName cfg) (map PutRequest items))]"
    have "nat (int (length (gen_arr g')) - gen_i g') < nat (int (length (gen_arr g)) - gen_i g)"
      using less.prems lt by (simp add: g')
    from less.hyps[OF this, of "c + length items" ?tr'] less.prems
    obtain r new where ih: "importLoop svc cfg g' (c + length items) ?tr' = Some (r, ?tr' @ new)"
         "createTableCalls new = []" "scanCalls new = []"
      by (auto simp: g')
    show ?thesis
      by (subst importLoop.simps) (auto simp: a send_def ih split: sum.splits)
  qed
qed

lemma createTableCalls_append: "createTableCalls (xs @ ys) = createTableCalls xs @ createTableCalls ys"
  by (induction xs rule: createTableCalls.induct) simp_all

lemma importLoop_nonpositive_limit:
  assumes "limit cfg \<le> 0"
  shows "\<exists>r new. importLoop svc cfg g 0 tr = Some (r, tr @ new) \<and> createTableCalls new = [] \<and> scanCalls new = []"
proof (cases "chunkArray_next g")
  case None
  then show ?thesis by (subst importLoop.simps) simp
next
  case (Some a)
  then obtain items g' where a: "chunkArray_next g = Some (items, g')" by (cases a) auto
  show ?thesis using assms
    by (subst importLoop.simps) (auto simp: a send_def split: sum.splits)
qed

lemma import_total:
  "\<exists>r new. importRemoteDataToLocalDynamoDB svc cfg items tr = Some (r, tr @ new) \<and> createTableCalls new = [] \<and> scanCalls new = []"
proof (cases "limit cfg \<le> 0")
  case True
  then show ?thesis
    using importLoop_nonpositive_limit[OF True]
    by (simp add: importRemoteDataToLocalDynamoDB_def)
next
  case False
  then show ?thesis
    using importLoop_total[of "chunkArray items (if limit cfg > 25 then 25 else limit cfg)" svc cfg 0 tr]
    by (simp add: importRemoteDataToLocalDynamoDB_def chunkArray_def)
qed

lemma importLoop_step:
  assumes "chunkArray_next g = Some (items, g')"
      and "svc tr dynamodbLocalDocClient (BatchWriteItemCommand (tableName cfg) (map PutRequest items)) = Inr resp"
  shows "importLoop svc cfg g c tr =
         (if limit cfg \<le> int (c + length items) then Some (Inr (), tr @ [batchWrite cfg items])
          else importLoop svc cfg g' (c + length items) (tr @ [batchWrite cfg items]))"
  using assms by (subst importLoop.simps) (simp add: send_def batchWrite_def)

lemma importLoop_batches:
  fixes svc :: "('tbl, 'item) service"
  assumes S: "1 \<le> S"
      and ok: "\<forall>k. k * nat S < length items \<and> int (k * nat S) < limit cfg \<longrightarrow>
                 (\<exists>resp. svc (tr0 @ map (\<lambda>k. batchWrite cfg (chunk (nat S) items k)) [0 ..< k])
                           dynamodbLocalDocClient
                           (BatchWriteItemCommand (tableName cfg)
                              (map PutRequest (chunk (nat S) items k))) = Inr resp)"
      and c: "c = min (j * nat S) (length items)" and lt: "int c < limit cfg"
      and tr: "tr = tr0 @ map (\<lambda>k. batchWrite cfg (chunk (nat S) items k)) [0 ..< j]"
  shows "importLoop svc cfg \<lparr>gen_arr = items, gen_stride = S, gen_i = int (j * nat S)\<rparr> c tr
         = Some (Inr (), tr @ map (\<lambda>k. batchWrite cfg (chunk (nat S) items k))
              [j ..< min ((length items + nat S - 1) div nat S) ((nat (limit cfg) + nat S - 1) div nat S)])"
  using c lt tr
proof (induction "length items - j * nat S" arbitrary: j c tr rule: less_induct)
  case less
  let ?s = "nat S" and ?N = "length items" and ?L = "nat (limit cfg)"
  let ?m = "min ((?N + ?s - 1) div ?s) ((?L + ?s - 1) div ?s)"
  let ?f = "\<lambda>k. batchWrite cfg (chunk ?s items k) :: ('tbl, 'item) event"
  have s: "0 < ?s" using S by simp
  show ?case
  proof (cases "j * ?s < ?N")
    case False
    hence "\<not> j < (?N + ?s - 1) div ?s" using ceil_div_less[OF s, of j ?N] by simp
    hence "?m \<le> j" by (simp add: min_def)
    hence "[j ..< ?m] = []" by simp
    then show ?thesis using False
      by (subst importLoop.simps) (simp add: chunkArray_next_done del: of_nat_mult)
  next
    case True
    hence cj: "c = j * ?s" using less.prems by simp
    have "int (j * ?s) < limit cfg" using less.prems cj by simp
    hence "j * ?s < ?L" by (simp only: zless_nat_eq_int_zless)
    hence jL: "j < (?L + ?s - 1) div ?s" using ceil_div_less[OF s, of j ?L] by simp
    have jN: "j < (?N + ?s - 1) div ?s" using True ceil_div_less[OF s, of j ?N] by simp
    let ?items = "chunk ?s items j"
    let ?tr' = "tr @ [?f j]"
    let ?c' = "c + length ?items"
    let ?g' = "\<lparr>gen_arr = items, gen_stride = S, gen_i = int (Suc j * ?s)\<rparr>"
    have c': "?c' = min (Suc j * ?s) ?N"
    proof -
      define x where "x = j * ?s"
      have "x + min ?s (?N - x) = min (x + ?s) ?N" using True unfolding x_def[symmetric] by arith
      thus ?thesis using cj by (simp add: x_def add.commute min.commute chunk_def)
    qed
    have jlim: "int (j * ?s) < limit cfg" using less.prems cj by simp
    obtain resp where resp: "svc tr dynamodbLocalDocClient (BatchWriteItemCommand (tableName cfg) (map PutRequest ?items)) = Inr resp"
      using ok[rule_format, of j] True jlim less.prems(3) by blast
    have tr': "?tr' = tr0 @ map ?f [0 ..< Suc j]" using less.prems(3) by simp
    have nx: "chunkArray_next \<lparr>gen_arr = items, gen_stride = S, gen_i = int (j * ?s)\<rparr> = Some (?items, ?g')"
      unfolding chunk_def by (rule chunkArray_next_full[OF S True])
    note step = importLoop_step[where svc = svc and tr = tr and cfg = cfg and c = c, OF nx resp]
    show ?thesis
    proof (cases "limit cfg \<le> int ?c'")
      case stop: True
      hence "?L \<le> ?c'" by (simp only: nat_le_iff)
      hence "?L \<le> Suc j * ?s" using c' by simp
      hence "\<not> Suc j * ?s < ?L" by simp
      hence "\<not> Suc j < (?L + ?s - 1) div ?s" using ceil_div_less[OF s, of "Suc j" ?L] by simp
      hence "?m = Suc j" using jL jN by (simp add: min_def)
      hence "map ?f [j ..< ?m] = [?f j]" by simp
      then show ?thesis using stop by (simp only: step if_True)
    next
      case cont: False
      have "?N - Suc j * ?s < ?N - j * ?s" using True s by simp
      from less.hyps[OF this c' _ tr'] cont
      have ih: "importLoop svc cfg ?g' ?c' ?tr' = Some (Inr (), ?tr' @ map ?f [Suc j ..< ?m])"
        by simp
      have "j < ?m" using jL jN by (simp add: min_def)
      hence "[j ..< ?m] = j # [Suc j ..< ?m]" by (simp add: upt_conv_Cons)
      hence "tr @ map ?f [j ..< ?m] = ?tr' @ map ?f [Suc j ..< ?m]" by simp
      then show ?thesis using cont by (simp only: step if_False ih)
    qed
  qed
qed

lemma batchWriteCalls_append:
  "batchWriteCalls (xs @ ys) = batchWriteCalls xs @ batchWriteCalls ys"
  by (induction xs rule: batchWriteCalls.induct) simp_all

lemma batchWriteCalls_map:
  "batchWriteCalls (map (\<lambda>k. batchWrite cfg (f k)) ks) = map (\<lambda>k. map PutRequest (f k)) ks"
  by (induction ks) (simp_all add: batchWrite_def)

lemma concat_map_PutRequest:
  "concat (map (\<lambda>k. map PutRequest (f k)) ks) = map PutRequest (concat (map f ks))"
  by (induction ks) simp_all

lemma import_batches:
  fixes svc :: "('tbl, 'item) service"
  assumes L: "1 \<le> limit cfg"
      and s: "s = nat (if limit cfg > 25 then 25 else limit cfg)"
      and ok: "\<forall>k. k * s < length items \<and> int (k * s) < limit cfg \<longrightarrow>
                 (\<exists>resp. svc (tr @ map (\<lambda>k. batchWrite cfg (chunk s items k)) [0 ..< k])
                           dynamodbLocalDocClient
                           (BatchWriteItemCommand (tableName cfg)
                              (map PutRequest (chunk s items k))) = Inr resp)"
  shows "importRemoteDataToLocalDynamoDB svc cfg items tr
         = Some (Inr (), tr @ map (\<lambda>k. batchWrite cfg (chunk s items k))
              [0 ..< min ((length items + s - 1) div s) ((nat (limit cfg) + s - 1) div s)])"
proof -
  let ?S = "if limit cfg > 25 then 25 else limit cfg"
  have S: "1 \<le> ?S" using L by simp
  have ok': "\<forall>k. k * nat ?S < length items \<and> int (k * nat ?S) < limit cfg \<longrightarrow>
                 (\<exists>resp. svc (tr @ map (\<lambda>k. batchWrite cfg (chunk (nat ?S) items k)) [0 ..< k])
                           dynamodbLocalDocClient
                           (BatchWriteItemCommand (tableName cfg)
                              (map PutRequest (chunk (nat ?S) items k))) = Inr resp)"
    using ok unfolding s .
  have c0: "0 = min (0 * nat ?S) (length items)" by simp
  have lt0: "int 0 < limit cfg" using L by simp
  have tr0: "tr = tr @ map (\<lambda>k. batchWrite cfg (chunk (nat ?S) items k)) [0 ..< 0]" by simp
  show ?thesis
    using importLoop_batches[where svc = svc and cfg = cfg and S = ?S and c = 0 and j = 0
            and items = items and tr = tr and ?tr0.0 = tr, OF S ok' c0 lt0 tr0]
    unfolding importRemoteDataToLocalDynamoDB_def Let_def chunkArray_def s by simp
qed

lemma firstChunkCountReachingL_least:
  assumes "1 \<le> L"
  shows "nat L \<le> firstChunkCountReachingL L
       \<and> firstChunkCountReachingL L < nat L + nat (if L > 25 then 25 else L)
       \<and> nat (if L > 25 then 25 else L) dvd firstChunkCountReachingL L"
proof -
  define s where "s = nat (if L > 25 then 25 else L)"
  have s0: "0 < s" using assms by (simp add: s_def)
  have f: "firstChunkCountReachingL L = ((nat L + s - 1) div s) * s"
    by (simp add: firstChunkCountReachingL_def Let_def s_def)
  show ?thesis
    unfolding f s_def[symmetric]
    using ceil_mult_ge[OF s0, of "nat L"] ceil_mult_lt[OF s0, of "nat L"] by simp
qed

text \<open>
  C2. For every item list of length \<open>N\<close> and limit \<open>L \<ge> 1\<close>, when the local service accepts
  the batch writes this import issues (the write of chunk \<open>k\<close> of the list, cut at the
  stride \<open>s = min L 25\<close>, sent after the writes of the chunks before it, for the chunks that
  start below \<open>N\<close> and below \<open>L\<close>; the service may refuse anything else, such as a batch
  over its ceiling of 25), the import returns normally and, reading the batch-write calls it
  issued: the items written are a prefix of the list; the running count before the last
  batch was still below \<open>L\<close> (it stops only after reaching the limit); the number of calls
  is \<open>ceil (min firstChunkCountReachingL N / 25)\<close>; the total written is at least \<open>L\<close> when
  \<open>N \<ge> L\<close>, is \<open>N\<close> when \<open>N < L\<close>, and exceeds \<open>L\<close> by at most 24.
\<close>

theorem bounded_import_stops_after_limit:
  fixes svc :: "('tbl, 'item) service"
  assumes L: "1 \<le> limit cfg"
      and s: "s = nat (min (limit cfg) 25)"
      and ok: "\<forall>k. k * s < length items \<and> int (k * s) < limit cfg \<longrightarrow>
                 (\<exists>resp. svc (tr @ map (\<lambda>j. batchWrite cfg (chunk s items j)) [0 ..< k])
                           dynamodbLocalDocClient
                           (BatchWriteItemCommand (tableName cfg)
                              (map PutRequest (chunk s items k))) = Inr resp)"
  shows "\<exists>new. importRemoteDataToLocalDynamoDB svc cfg items tr = Some (Inr (), tr @ new)
           \<and> concat (batchWriteCalls new)
               = map PutRequest (take (length (concat (batchWriteCalls new))) items)
           \<and> (batchWriteCalls new \<noteq> [] \<longrightarrow>
                 int (length (concat (butlast (batchWriteCalls new)))) < limit cfg)
           \<and> length (batchWriteCalls new)
               = (min (firstChunkCountReachingL (limit cfg)) (length items) + 24) div 25
           \<and> (limit cfg \<le> int (length items) \<longrightarrow>
                 limit cfg \<le> int (length (concat (batchWriteCalls new))))
           \<and> (int (length items) < limit cfg \<longrightarrow>
                 length (concat (batchWriteCalls new)) = length items)
           \<and> int (length (concat (batchWriteCalls new))) \<le> limit cfg + 24"
proof -
  have s_def: "s = nat (if limit cfg > 25 then 25 else limit cfg)"
    using s by (simp add: min_def)
  define Ln where "Ln = nat (limit cfg)"
  define N where "N = length items"
  define cN where "cN = (N + s - 1) div s"
  define cL where "cL = (Ln + s - 1) div s"
  define m where "m = min cN cL"
  define new :: "('tbl, 'item) event list" where "new = map (\<lambda>k. batchWrite cfg (chunk s items k)) [0 ..< m]"
  have s0: "0 < s" and s25: "s \<le> 25" and sL: "s \<le> Ln" and Ln: "1 \<le> Ln" "limit cfg = int Ln"
    and s_eq: "s = (if 25 < Ln then 25 else Ln)"
    using L by (auto simp: s_def Ln_def)
  have run: "importRemoteDataToLocalDynamoDB svc cfg items tr = Some (Inr (), tr @ new)"
    using import_batches[where svc = svc and cfg = cfg and s = s and items = items and tr = tr,
            OF L s_def ok] by (simp add: new_def m_def cN_def cL_def N_def Ln_def)
  have calls: "batchWriteCalls new = map (\<lambda>k. map PutRequest (chunk s items k)) [0 ..< m]"
    by (simp add: new_def batchWriteCalls_map)
  have written: "concat (batchWriteCalls new) = map PutRequest (take (m * s) items)"
    unfolding calls concat_map_PutRequest chunk_def by (simp only: concat_chunks_take)
  have W: "length (concat (batchWriteCalls new)) = min (m * s) N"
    by (simp add: written N_def min.commute)
  have p1: "concat (batchWriteCalls new) = map PutRequest (take (length (concat (batchWriteCalls new))) items)"
    unfolding W by (simp add: written N_def min_def)
  have cL_ge: "Ln \<le> cL * s" unfolding cL_def by (rule ceil_mult_ge[OF s0])
  have cL_lt: "cL * s < Ln + s" unfolding cL_def by (rule ceil_mult_lt[OF s0])
  have cN_ge: "N \<le> cN * s" unfolding cN_def by (rule ceil_mult_ge[OF s0])
  have p2: "int (length (concat (butlast (batchWriteCalls new)))) < limit cfg" if "batchWriteCalls new \<noteq> []"
  proof -
    have m0: "0 < m" using that by (simp add: calls)
    hence bl: "butlast (batchWriteCalls new) = map (\<lambda>k. map PutRequest (chunk s items k)) [0 ..< m - 1]"
      unfolding calls by (cases m) (simp_all add: map_butlast[symmetric])
    have "concat (butlast (batchWriteCalls new)) = map PutRequest (take ((m - 1) * s) items)"
      unfolding bl concat_map_PutRequest chunk_def by (simp only: concat_chunks_take)
    hence "length (concat (butlast (batchWriteCalls new))) \<le> (m - 1) * s" by simp
    moreover have "m \<le> cL" by (simp add: m_def)
    hence "m - 1 < cL" using m0 by linarith
    hence "(m - 1) * s < Ln" unfolding cL_def using ceil_div_less[OF s0, of "m - 1" Ln] by simp
    ultimately show ?thesis using Ln by simp
  qed
  have p3: "length (batchWriteCalls new) = (min (firstChunkCountReachingL (limit cfg)) (length items) + 24) div 25"
  proof -
    have "firstChunkCountReachingL (limit cfg) = s * cL"
      by (simp add: firstChunkCountReachingL_def Let_def s_def cL_def Ln_def)
    thus ?thesis
      using batch_count_formula[OF Ln(1) s_eq, of N]
      by (simp add: calls m_def cN_def cL_def N_def)
  qed
  have p4: "limit cfg \<le> int (length (concat (batchWriteCalls new)))" if "limit cfg \<le> int (length items)"
  proof -
    have "Ln \<le> N" using that Ln by (simp add: N_def)
    moreover have "Ln \<le> m * s" using cL_ge cN_ge \<open>Ln \<le> N\<close> by (cases "cN \<le> cL") (simp_all add: m_def min_def)
    ultimately show ?thesis using Ln by (simp add: W)
  qed
  have p5: "length (concat (batchWriteCalls new)) = length items" if "int (length items) < limit cfg"
  proof -
    have "N \<le> Ln" using that Ln by (simp add: N_def)
    hence "cN \<le> cL" unfolding cN_def cL_def by (rule ceil_mono)
    hence "N \<le> m * s" using cN_ge by (simp add: m_def min_def)
    thus ?thesis by (simp add: W N_def)
  qed
  have p6: "int (length (concat (batchWriteCalls new))) \<le> limit cfg + 24"
  proof -
    have "m * s \<le> cL * s" by (simp add: m_def)
    hence "m * s \<le> Ln + 24" using cL_lt s25 by linarith
    hence "min (m * s) N \<le> Ln + 24" by simp
    thus ?thesis using Ln by (simp add: W)
  qed
  show ?thesis using run p1 p2 p3 p4 p5 p6 by blast
qed

theorem bounded_import_stops_after_limit_witness:
  "1 \<le> limit \<lparr>tableName = ''T'', limit = 26\<rparr>
   \<and> (25::nat) = nat (min (limit \<lparr>tableName = ''T'', limit = 26\<rparr>) 25)
   \<and> (\<exists>resp. batch_ceiling_service [] dynamodbLocalDocClient
              (BatchWriteItemCommand ''T'' (map PutRequest (chunk 25 (replicate 60 (7::nat)) 0)))
            = Inr resp)
   \<and> (\<exists>resp. batch_ceiling_service
              [batchWrite \<lparr>tableName = ''T'', limit = 26\<rparr> (chunk 25 (replicate 60 (7::nat)) 0)]
              dynamodbLocalDocClient
              (BatchWriteItemCommand ''T'' (map PutRequest (chunk 25 (replicate 60 (7::nat)) 1)))
            = Inr resp)
   \<and> (\<exists>e. batch_ceiling_service [] dynamodbLocalDocClient
              (BatchWriteItemCommand ''T'' (map PutRequest (replicate 60 (7::nat)))) = Inl e)
   \<and> (\<exists>new. importRemoteDataToLocalDynamoDB batch_ceiling_service
                \<lparr>tableName = ''T'', limit = 26\<rparr> (replicate 60 (7::nat)) []
                = Some (Inr (), new)
          \<and> length (batchWriteCalls new) = 2
          \<and> 26 \<le> length (concat (batchWriteCalls new))
          \<and> length (concat (batchWriteCalls new)) \<le> 50)"
proof -
  let ?cfg = "\<lparr>tableName = ''T'', limit = 26\<rparr>"
  let ?items = "replicate 60 (7::nat)"
  have h1: "1 \<le> limit ?cfg" by simp
  have h2: "(25::nat) = nat (min (limit ?cfg) 25)" by simp
  have h3: "\<forall>k. k * 25 < length ?items \<and> int (k * 25) < limit ?cfg \<longrightarrow>
          (\<exists>resp. batch_ceiling_service
                    ([] @ map (\<lambda>j. batchWrite ?cfg (chunk 25 ?items j)) [0 ..< k])
                    dynamodbLocalDocClient
                    (BatchWriteItemCommand (tableName ?cfg)
                       (map PutRequest (chunk 25 ?items k))) = Inr resp)"
    by (auto simp: batch_ceiling_service_def chunk_def)
  have refuses: "\<exists>e. batch_ceiling_service [] dynamodbLocalDocClient
              (BatchWriteItemCommand ''T'' (map PutRequest ?items)) = Inl e"
    by (simp add: batch_ceiling_service_def)
  from bounded_import_stops_after_limit
         [where svc = batch_ceiling_service and cfg = ?cfg and items = ?items
            and tr = "[]" and s = 25, OF h1 h2 h3]
  obtain new where
    run: "importRemoteDataToLocalDynamoDB batch_ceiling_service ?cfg ?items []
            = Some (Inr (), [] @ new)"
    and cnt: "length (batchWriteCalls new)
            = (min (firstChunkCountReachingL (limit ?cfg)) (length ?items) + 24) div 25"
    and ge: "limit ?cfg \<le> int (length ?items) \<longrightarrow>
             limit ?cfg \<le> int (length (concat (batchWriteCalls new)))"
    and le: "int (length (concat (batchWriteCalls new))) \<le> limit ?cfg + 24"
    by blast
  have run': "importRemoteDataToLocalDynamoDB batch_ceiling_service ?cfg ?items []
            = Some (Inr (), new)"
    using run by simp
  have c2: "length (batchWriteCalls new) = 2"
    using cnt by (simp add: firstChunkCountReachingL_def)
  have lo: "26 \<le> length (concat (batchWriteCalls new))" using ge by simp
  have hi: "length (concat (batchWriteCalls new)) \<le> 50" using le by simp
  have w0: "\<exists>resp. batch_ceiling_service [] dynamodbLocalDocClient
              (BatchWriteItemCommand ''T'' (map PutRequest (chunk 25 ?items 0))) = Inr resp"
    by (simp add: batch_ceiling_service_def chunk_def)
  have w1: "\<exists>resp. batch_ceiling_service [batchWrite ?cfg (chunk 25 ?items 0)]
              dynamodbLocalDocClient
              (BatchWriteItemCommand ''T'' (map PutRequest (chunk 25 ?items 1))) = Inr resp"
    by (simp add: batch_ceiling_service_def chunk_def)
  have "\<exists>new. importRemoteDataToLocalDynamoDB batch_ceiling_service ?cfg ?items []
                = Some (Inr (), new)
          \<and> length (batchWriteCalls new) = 2
          \<and> 26 \<le> length (concat (batchWriteCalls new))
          \<and> length (concat (batchWriteCalls new)) \<le> 50"
    using run' c2 lo hi by blast
  with h1 h2 w0 w1 refuses show ?thesis by (intro conjI)
qed

text \<open>
  C10. For every limit \<open>L\<close> with \<open>1 \<le> L \<le> 25\<close> and every non-empty item list of length \<open>N\<close>,
  the import issues exactly one batch-write call, holding the first \<open>min N L\<close> items, so
  \<open>min N L\<close> items are written in total; the import returns the outcome of that one call.
\<close>

theorem small_limit_single_batch:
  fixes svc :: "('tbl, 'item) service"
  assumes "1 \<le> limit cfg" "limit cfg \<le> 25" "items \<noteq> []"
  shows "\<exists>r new reqs.
           importRemoteDataToLocalDynamoDB svc cfg items tr = Some (r, tr @ new)
         \<and> new = [Send dynamodbLocalDocClient (BatchWriteItemCommand (tableName cfg) reqs)]
         \<and> reqs = map PutRequest (take (nat (limit cfg)) items)
         \<and> length reqs = min (length items) (nat (limit cfg))
         \<and> batchWriteCalls new = [reqs]
         \<and> length (concat (batchWriteCalls new)) = min (length items) (nat (limit cfg))
         \<and> r = (case svc tr dynamodbLocalDocClient
                        (BatchWriteItemCommand (tableName cfg) reqs) of
                   Inl e \<Rightarrow> Inl e | Inr _ \<Rightarrow> Inr ())"
  using import_small_limit[OF assms, of svc tr] by (simp add: min.commute)

theorem small_limit_single_batch_witness:
  "1 \<le> limit \<lparr>tableName = ''T'', limit = 3\<rparr> \<and> limit \<lparr>tableName = ''T'', limit = 3\<rparr> \<le> 25
   \<and> [1, 2, 3, 4, 5 :: nat] \<noteq> []
   \<and> importRemoteDataToLocalDynamoDB accepting_service \<lparr>tableName = ''T'', limit = 3\<rparr>
        [1, 2, 3, 4, 5 :: nat] []
      = Some (Inr (), [Send dynamodbLocalDocClient
                        (BatchWriteItemCommand ''T'' [PutRequest 1, PutRequest 2, PutRequest 3])])"
proof -
  let ?cfg = "\<lparr>tableName = ''T'', limit = 3\<rparr>"
  have h: "1 \<le> limit ?cfg" "limit ?cfg \<le> 25" "[1, 2, 3, 4, 5 :: nat] \<noteq> []" by simp_all
  from small_limit_single_batch[where svc = accepting_service and tr = "[]", OF h]
  show ?thesis by (simp add: accepting_service_def)
qed

text \<open>
  C1, as the code behaves. With a limit of 0 the stride is 0 as well: on any non-empty
  item list the first chunk is empty, \<open>limitCounter\<close> stays 0, and \<open>0 >= 0\<close> breaks the
  loop. The import issues one batch write with no put request and stops, whatever the
  service answers: no item is written.
\<close>

theorem limit_zero_writes_nothing:
  fixes svc :: "('tbl, 'item) service"
  shows "\<exists>r. importRemoteDataToLocalDynamoDB svc \<lparr>tableName = t, limit = 0\<rparr> (x # xs) tr
           = Some (r, tr @ [Send dynamodbLocalDocClient (BatchWriteItemCommand t [])])"
proof -
  have nx: "chunkArray_next (chunkArray (x # xs) 0)
            = Some ([], \<lparr>gen_arr = x # xs, gen_stride = 0, gen_i = 0\<rparr>)"
    by (simp add: chunkArray_def chunkArray_next_def slice_def)
  show ?thesis
    unfolding importRemoteDataToLocalDynamoDB_def Let_def
    by (subst importLoop.simps) (auto simp: nx send_def split: sum.splits)
qed


section \<open>Properties of the existence check\<close>

lemma getTableDescriptionInfo_Inr:
  "svc tr c (DescribeTableCommand t) = Inr resp \<Longrightarrow>
   getTableDescriptionInfo svc t c tr = (Inr (Some resp), tr @ [Send c (DescribeTableCommand t)])"
  by (simp add: getTableDescriptionInfo_def send_def)

lemma getTableDescriptionInfo_Inl:
  "svc tr c (DescribeTableCommand t) = Inl e \<Longrightarrow>
   getTableDescriptionInfo svc t c tr =
     (if err_name e = ''ResourceNotFoundException'' then Inr None else Inl e,
      tr @ [Send c (DescribeTableCommand t)])"
  by (simp add: getTableDescriptionInfo_def send_def)

lemma getTableDescriptionInfo_trace:
  "snd (getTableDescriptionInfo svc t c tr) = tr @ [Send c (DescribeTableCommand t)]"
  by (cases "svc tr c (DescribeTableCommand t)")
     (simp_all add: getTableDescriptionInfo_def send_def)

text \<open>
  C4. For every table name and client: when the describe call succeeds the check returns
  the service's description; it returns \<open>null\<close> (no error) exactly when the call throws an
  error named \<open>ResourceNotFoundException\<close>; every other thrown error is rethrown as it
  is. In all cases exactly one describe command is sent.
\<close>

theorem getTableDescriptionInfo_contract:
  fixes svc :: "('tbl, 'item) service"
  shows "(svc tr c (DescribeTableCommand t) = Inr resp \<longrightarrow>
            fst (getTableDescriptionInfo svc t c tr) = Inr (Some resp))
       \<and> (fst (getTableDescriptionInfo svc t c tr) = Inr None \<longleftrightarrow>
            (\<exists>e. svc tr c (DescribeTableCommand t) = Inl e
                 \<and> err_name e = ''ResourceNotFoundException''))
       \<and> (svc tr c (DescribeTableCommand t) = Inl e
            \<and> err_name e \<noteq> ''ResourceNotFoundException'' \<longrightarrow>
            fst (getTableDescriptionInfo svc t c tr) = Inl e)
       \<and> snd (getTableDescriptionInfo svc t c tr) = tr @ [Send c (DescribeTableCommand t)]"
  by (cases "svc tr c (DescribeTableCommand t)")
     (auto simp: getTableDescriptionInfo_Inr getTableDescriptionInfo_Inl)

theorem getTableDescriptionInfo_contract_witness:
  "example_service True False [] [] dynamodbDocClient (DescribeTableCommand ''T'')
     = Inr \<lparr>Table = Some 7, Items = None\<rparr>
   \<and> fst (getTableDescriptionInfo (example_service True False []) ''T'' dynamodbDocClient [])
     = Inr (Some \<lparr>Table = Some 7, Items = None\<rparr>)
   \<and> (\<exists>e. example_service True False [] [] dynamodbLocalDocClient (DescribeTableCommand ''T'') = Inl e
          \<and> err_name e = ''ResourceNotFoundException'')
   \<and> fst (getTableDescriptionInfo (example_service True False []) ''T'' dynamodbLocalDocClient [])
     = Inr None
   \<and> example_service True False [] [] dynamodbClient (DescribeTableCommand ''T'')
     = Inl (JsError ''AccessDeniedException'' ''not authorized'')
   \<and> err_name (JsError ''AccessDeniedException'' ''not authorized'') \<noteq> ''ResourceNotFoundException''
   \<and> fst (getTableDescriptionInfo (example_service True False []) ''T'' dynamodbClient [])
     = Inl (JsError ''AccessDeniedException'' ''not authorized'')"
proof -
  let ?svc = "example_service True False []"
  let ?ok = "\<lparr>Table = Some (7::nat), Items = None :: nat list option\<rparr>"
  let ?denied = "JsError ''AccessDeniedException'' ''not authorized''"
  have a: "?svc [] dynamodbDocClient (DescribeTableCommand ''T'') = Inr ?ok"
    by (simp add: example_service_def)
  have b: "\<exists>e. ?svc [] dynamodbLocalDocClient (DescribeTableCommand ''T'') = Inl e
              \<and> err_name e = ''ResourceNotFoundException''"
    by (simp add: example_service_def)
  have c: "?svc [] dynamodbClient (DescribeTableCommand ''T'') = Inl ?denied"
    by (simp add: example_service_def)
  have d: "err_name ?denied \<noteq> ''ResourceNotFoundException''" by simp
  have 1: "fst (getTableDescriptionInfo ?svc ''T'' dynamodbDocClient []) = Inr (Some ?ok)"
    using getTableDescriptionInfo_contract[of ?svc "[]" dynamodbDocClient "''T''" ?ok] a by blast
  have 2: "fst (getTableDescriptionInfo ?svc ''T'' dynamodbLocalDocClient []) = Inr None"
    using getTableDescriptionInfo_contract[of ?svc "[]" dynamodbLocalDocClient "''T''"] b by blast
  have 3: "fst (getTableDescriptionInfo ?svc ''T'' dynamodbClient []) = Inl ?denied"
    using getTableDescriptionInfo_contract[of ?svc "[]" dynamodbClient "''T''" _ ?denied] c d by blast
  show ?thesis using a b c d 1 2 3 by blast
qed


section \<open>Properties of the orchestration\<close>

lemma scanCalls_append: "scanCalls (xs @ ys) = scanCalls xs @ scanCalls ys"
  by (induction xs rule: scanCalls.induct) simp_all

lemma consoleErrors_append: "consoleErrors (xs @ ys) = consoleErrors xs @ consoleErrors ys"
  by (induction xs rule: consoleErrors.induct) simp_all

lemma scanAndImport_shape:
  fixes svc :: "('tbl, 'item) service"
  shows "\<exists>r rest. scanAndImport svc cfg tr
            = Some (r, tr @ Send dynamodbClient (ScanCommand (tableName cfg)) # rest)
          \<and> createTableCalls rest = [] \<and> scanCalls rest = []
          \<and> (\<forall>resp. svc tr dynamodbClient (ScanCommand (tableName cfg)) = Inr resp
                  \<and> (Items resp = None \<or> Items resp = Some []) \<longrightarrow>
                 r = Inr () \<and> rest = [ConsoleLog (empty_table_message (tableName cfg))])"
proof (cases "svc tr dynamodbClient (ScanCommand (tableName cfg))")
  case (Inl e)
  then show ?thesis by (simp add: scanAndImport_def send_def)
next
  case (Inr tableData)
  show ?thesis
  proof (cases "Items tableData")
    case None
    then show ?thesis using Inr by (simp add: scanAndImport_def send_def)
  next
    case (Some its)
    show ?thesis
    proof (cases "its = []")
      case True
      then show ?thesis using Inr Some by (simp add: scanAndImport_def send_def)
    next
      case False
      let ?tr' = "tr @ [Send dynamodbClient (ScanCommand (tableName cfg))]"
      from import_total[of svc cfg its ?tr']
      obtain r new where imp: "importRemoteDataToLocalDynamoDB svc cfg its ?tr' = Some (r, ?tr' @ new)"
        and new: "createTableCalls new = []" "scanCalls new = []" by blast
      show ?thesis using Inr Some False imp new
        by (cases r) (simp_all add: scanAndImport_def send_def createTableCalls_append scanCalls_append)
    qed
  qed
qed


lemma scan_split_unique:
  assumes "h @ Send c (ScanCommand t) # rest = pre @ Send c (ScanCommand t) # rest0"
      and "scanCalls pre = []" "scanCalls rest0 = []"
  shows "h = pre \<and> rest = rest0"
  using assms
proof (induction h arbitrary: pre)
  case Nil
  then show ?case by (cases pre) auto
next
  case (Cons x h)
  show ?case
  proof (cases pre)
    case Nil
    with Cons.prems have "rest0 = h @ Send c (ScanCommand t) # rest" by simp
    with Cons.prems(3) show ?thesis by (simp add: scanCalls_append)
  next
    case (Cons y pre')
    with Cons.prems have xy: "x = y" and eq: "h @ Send c (ScanCommand t) # rest = pre' @ Send c (ScanCommand t) # rest0"
      by simp_all
    have "scanCalls pre' = []" using Cons.prems(2) Cons
      by (cases "(y # pre')" rule: scanCalls.cases) (auto split: if_splits)
    from Cons.IH[OF eq this Cons.prems(3)] xy Cons show ?thesis by simp
  qed
qed

lemma createLocalTableIfAbsent_shape:
  fixes svc :: "('tbl, 'item) service"
  shows "\<exists>r new. createLocalTableIfAbsent svc localDesc remoteDesc tr = (r, tr @ new)
           \<and> createTableCalls new = (case localDesc of None \<Rightarrow> [(dynamodbLocalDocClient, Table remoteDesc)] | Some _ \<Rightarrow> [])
           \<and> scanCalls new = [] \<and> batchWriteCalls new = [] \<and> consoleErrors new = []"
  by (cases localDesc; cases "svc tr dynamodbLocalDocClient (CreateTableCommand (Table remoteDesc))")
     (simp_all add: createLocalTableIfAbsent_def send_def)


text \<open>
  C6. In every run where the remote describe (the first call of the run) reports the
  table unknown, the body throws an \<open>Error\<close> whose message is the text below: it names the
  table, says that it does not exist in the remote DynamoDB, and tells the operator to
  create the table first. The run sends nothing after that describe (no create-table,
  scan or batch-write call) and prints that error with \<open>console.error\<close>.
\<close>

theorem missing_remote_table_fails:
  fixes svc :: "('tbl, 'item) service"
  assumes "svc (tr @ [ConsoleLog banner_message]) dynamodbDocClient
             (DescribeTableCommand (tableName cfg)) = Inl e"
      and "err_name e = ''ResourceNotFoundException''"
  shows "exportAndImport_try svc cfg (tr @ [ConsoleLog banner_message])
           = Some (Inl (JsError ''Error''
                     (''Table \"'' @ tableName cfg @ ''\" does not exist in the remote DynamoDB, Please create the table first before exporting and importing it to local DynamoDB.'')),
                   tr @ [ConsoleLog banner_message,
                         Send dynamodbDocClient (DescribeTableCommand (tableName cfg))])
       \<and> exportAndImportDynamoDBTable svc cfg tr
           = Some (tr @ [ConsoleLog banner_message,
                         Send dynamodbDocClient (DescribeTableCommand (tableName cfg)),
                         ConsoleError (JsError ''Error''
                           (''Table \"'' @ tableName cfg @ ''\" does not exist in the remote DynamoDB, Please create the table first before exporting and importing it to local DynamoDB.''))])"
  using assms
  by (simp add: exportAndImportDynamoDBTable_def exportAndImport_try_def
        getTableDescriptionInfo_Inl missing_remote_table_message_def)

theorem missing_remote_table_fails_witness:
  "example_service False False [1, 2] ([] @ [ConsoleLog banner_message]) dynamodbDocClient
     (DescribeTableCommand (tableName \<lparr>tableName = ''T'', limit = 500\<rparr>))
     = Inl (JsError ''ResourceNotFoundException'' ''Cannot do operations on a non-existent table'')
   \<and> err_name (JsError ''ResourceNotFoundException'' ''Cannot do operations on a non-existent table'')
     = ''ResourceNotFoundException''
   \<and> exportAndImportDynamoDBTable (example_service False False [1, 2])
        \<lparr>tableName = ''T'', limit = 500\<rparr> []
     = Some [ConsoleLog banner_message,
             Send dynamodbDocClient (DescribeTableCommand ''T''),
             ConsoleError (JsError ''Error''
               ''Table \"T\" does not exist in the remote DynamoDB, Please create the table first before exporting and importing it to local DynamoDB.'')]"
proof -
  let ?svc = "example_service False False [1, 2]"
  let ?cfg = "\<lparr>tableName = ''T'', limit = 500\<rparr>"
  let ?e = "JsError ''ResourceNotFoundException'' ''Cannot do operations on a non-existent table''"
  have h1: "?svc ([] @ [ConsoleLog banner_message]) dynamodbDocClient
              (DescribeTableCommand (tableName ?cfg)) = Inl ?e"
    by (simp add: example_service_def)
  have h2: "err_name ?e = ''ResourceNotFoundException''" by simp
  from missing_remote_table_fails[where svc = ?svc and cfg = ?cfg and tr = "[]", OF h1 h2]
  show ?thesis using h1 h2 by simp
qed


text \<open>
  C5. In every run where the remote describe succeeds: when the local describe (the second
  call of the run) reports the table present, the run issues no create-table call; when
  it reports the table unknown, the run issues exactly one create-table call, through the
  local client, whose argument is the \<open>Table\<close> property of the remote description as
  received. In both cases the run returns.
\<close>

theorem create_table_policy:
  fixes svc :: "('tbl, 'item) service"
  assumes remote: "svc (tr @ [ConsoleLog banner_message]) dynamodbDocClient
                     (DescribeTableCommand (tableName cfg)) = Inr remoteTableDescription"
  shows "(svc (tr @ [ConsoleLog banner_message,
                     Send dynamodbDocClient (DescribeTableCommand (tableName cfg))])
              dynamodbLocalDocClient (DescribeTableCommand (tableName cfg))
            = Inr localTableDescription \<longrightarrow>
          (\<exists>new. exportAndImportDynamoDBTable svc cfg tr = Some (tr @ new)
                \<and> createTableCalls new = []))
       \<and> (svc (tr @ [ConsoleLog banner_message,
                     Send dynamodbDocClient (DescribeTableCommand (tableName cfg))])
              dynamodbLocalDocClient (DescribeTableCommand (tableName cfg)) = Inl e
            \<and> err_name e = ''ResourceNotFoundException'' \<longrightarrow>
          (\<exists>new. exportAndImportDynamoDBTable svc cfg tr = Some (tr @ new)
                \<and> createTableCalls new
                    = [(dynamodbLocalDocClient, Table remoteTableDescription)]))"
proof -
  let ?t0 = "tr @ [ConsoleLog banner_message]"
  let ?D1 = "Send dynamodbDocClient (DescribeTableCommand (tableName cfg)) :: ('tbl, 'item) event"
  let ?D2 = "Send dynamodbLocalDocClient (DescribeTableCommand (tableName cfg)) :: ('tbl, 'item) event"
  let ?t2 = "tr @ [ConsoleLog banner_message, ?D1, ?D2]"
  have d1: "getTableDescriptionInfo svc (tableName cfg) dynamodbDocClient ?t0
              = (Inr (Some remoteTableDescription), tr @ [ConsoleLog banner_message, ?D1])"
    using getTableDescriptionInfo_Inr[where svc = svc, OF remote] by simp
  have rest: "\<exists>new. exportAndImportDynamoDBTable svc cfg tr = Some (tr @ new)
                \<and> createTableCalls new = (case localDesc of None \<Rightarrow> [(dynamodbLocalDocClient, Table remoteTableDescription)] | Some _ \<Rightarrow> [])"
    if d2: "getTableDescriptionInfo svc (tableName cfg) dynamodbLocalDocClient
              (tr @ [ConsoleLog banner_message, ?D1]) = (Inr localDesc, ?t2)" for localDesc
  proof -
    obtain r1 new1 where c: "createLocalTableIfAbsent svc localDesc remoteTableDescription ?t2 = (r1, ?t2 @ new1)"
      and c1: "createTableCalls new1 = (case localDesc of None \<Rightarrow> [(dynamodbLocalDocClient, Table remoteTableDescription)] | Some _ \<Rightarrow> [])"
      using createLocalTableIfAbsent_shape[of svc localDesc remoteTableDescription ?t2] by blast
    show ?thesis
    proof (cases r1)
      case (Inl err)
      then show ?thesis using d1 d2 c c1
        by (simp add: exportAndImportDynamoDBTable_def exportAndImport_try_def createTableCalls_append)
    next
      case (Inr u)
      obtain r2 rest2 where s: "scanAndImport svc cfg (?t2 @ new1)
            = Some (r2, (?t2 @ new1) @ Send dynamodbClient (ScanCommand (tableName cfg)) # rest2)"
        and s1: "createTableCalls rest2 = []"
        using scanAndImport_shape[of svc cfg "?t2 @ new1"] by blast
      show ?thesis using Inr d1 d2 c c1 s s1
        by (cases r2)
           (simp_all add: exportAndImportDynamoDBTable_def exportAndImport_try_def createTableCalls_append)
    qed
  qed
  show ?thesis
  proof (intro conjI impI)
    assume "svc (tr @ [ConsoleLog banner_message, ?D1]) dynamodbLocalDocClient
              (DescribeTableCommand (tableName cfg)) = Inr localTableDescription"
    from getTableDescriptionInfo_Inr[where svc = svc, OF this] rest[of "Some localTableDescription"]
    show "\<exists>new. exportAndImportDynamoDBTable svc cfg tr = Some (tr @ new) \<and> createTableCalls new = []"
      by simp
  next
    assume "svc (tr @ [ConsoleLog banner_message, ?D1]) dynamodbLocalDocClient
              (DescribeTableCommand (tableName cfg)) = Inl e
            \<and> err_name e = ''ResourceNotFoundException''"
    with getTableDescriptionInfo_Inl[of svc "tr @ [ConsoleLog banner_message, ?D1]" dynamodbLocalDocClient "tableName cfg" e]
      rest[of None]
    show "\<exists>new. exportAndImportDynamoDBTable svc cfg tr = Some (tr @ new)
            \<and> createTableCalls new = [(dynamodbLocalDocClient, Table remoteTableDescription)]"
      by simp
  qed
qed


theorem create_table_policy_witness:
  "example_service True True [] ([] @ [ConsoleLog banner_message]) dynamodbDocClient
     (DescribeTableCommand ''T'') = Inr \<lparr>Table = Some 7, Items = None\<rparr>
   \<and> example_service True True []
       ([] @ [ConsoleLog banner_message, Send dynamodbDocClient (DescribeTableCommand ''T'')])
       dynamodbLocalDocClient (DescribeTableCommand ''T'') = Inr \<lparr>Table = Some 7, Items = None\<rparr>
   \<and> (\<exists>new. exportAndImportDynamoDBTable (example_service True True [])
                \<lparr>tableName = ''T'', limit = 500\<rparr> [] = Some new
            \<and> createTableCalls new = [])
   \<and> example_service True False [] ([] @ [ConsoleLog banner_message]) dynamodbDocClient
     (DescribeTableCommand ''T'') = Inr \<lparr>Table = Some 7, Items = None\<rparr>
   \<and> (\<exists>e. example_service True False []
            ([] @ [ConsoleLog banner_message, Send dynamodbDocClient (DescribeTableCommand ''T'')])
            dynamodbLocalDocClient (DescribeTableCommand ''T'') = Inl e
          \<and> err_name e = ''ResourceNotFoundException'')
   \<and> (\<exists>new. exportAndImportDynamoDBTable (example_service True False [])
                \<lparr>tableName = ''T'', limit = 500\<rparr> [] = Some new
            \<and> createTableCalls new = [(dynamodbLocalDocClient, Some 7)])"
proof -
  let ?cfg = "\<lparr>tableName = ''T'', limit = 500\<rparr>"
  let ?ok = "\<lparr>Table = Some (7::nat), Items = None :: nat list option\<rparr>"
  let ?t1 = "[] @ [ConsoleLog banner_message, Send dynamodbDocClient (DescribeTableCommand (tableName ?cfg))]
               :: (nat, nat) event list"
  let ?e = "JsError ''ResourceNotFoundException'' ''Cannot do operations on a non-existent table''"
  have r1: "example_service True True [] ([] @ [ConsoleLog banner_message]) dynamodbDocClient
              (DescribeTableCommand (tableName ?cfg)) = Inr ?ok"
    and l1: "example_service True True [] ?t1 dynamodbLocalDocClient
              (DescribeTableCommand (tableName ?cfg)) = Inr ?ok"
    and r2: "example_service True False [] ([] @ [ConsoleLog banner_message]) dynamodbDocClient
              (DescribeTableCommand (tableName ?cfg)) = Inr ?ok"
    and l2: "example_service True False [] ?t1 dynamodbLocalDocClient
              (DescribeTableCommand (tableName ?cfg)) = Inl ?e"
    by (simp_all add: example_service_def)
  have present: "\<exists>new. exportAndImportDynamoDBTable (example_service True True []) ?cfg [] = Some new
                   \<and> createTableCalls new = []"
    using create_table_policy[where svc = "example_service True True []" and cfg = ?cfg
            and tr = "[]" and localTableDescription = ?ok, OF r1] l1
    by simp
  have absent: "\<exists>new. exportAndImportDynamoDBTable (example_service True False []) ?cfg [] = Some new
                   \<and> createTableCalls new = [(dynamodbLocalDocClient, Some 7)]"
    using create_table_policy[where svc = "example_service True False []" and cfg = ?cfg
            and tr = "[]" and e = ?e, OF r2] l2
    by simp
  show ?thesis using r1 l1 r2 l2 present absent by simp
qed


lemma exportAndImport_shape:
  fixes svc :: "('tbl, 'item) service"
  shows "\<exists>new. exportAndImportDynamoDBTable svc cfg tr = Some (tr @ new)
           \<and> (scanCalls new = []
              \<or> (\<exists>pre rest. new = pre @ Send dynamodbClient (ScanCommand (tableName cfg)) # rest
                    \<and> scanCalls pre = [] \<and> scanCalls rest = []
                    \<and> batchWriteCalls pre = [] \<and> consoleErrors pre = []
                    \<and> (\<forall>resp. svc (tr @ pre) dynamodbClient (ScanCommand (tableName cfg)) = Inr resp
                            \<and> (Items resp = None \<or> Items resp = Some []) \<longrightarrow>
                          rest = [ConsoleLog (empty_table_message (tableName cfg))])))"
proof -
  let ?t0 = "tr @ [ConsoleLog banner_message]"
  let ?D1 = "Send dynamodbDocClient (DescribeTableCommand (tableName cfg)) :: ('tbl, 'item) event"
  let ?D2 = "Send dynamodbLocalDocClient (DescribeTableCommand (tableName cfg)) :: ('tbl, 'item) event"
  let ?Scan = "Send dynamodbClient (ScanCommand (tableName cfg)) :: ('tbl, 'item) event"
  let ?t1 = "tr @ [ConsoleLog banner_message, ?D1]"
  let ?t2 = "tr @ [ConsoleLog banner_message, ?D1, ?D2]"
  define r1 where "r1 = fst (getTableDescriptionInfo svc (tableName cfg) dynamodbDocClient ?t0)"
  define r2 where "r2 = fst (getTableDescriptionInfo svc (tableName cfg) dynamodbLocalDocClient ?t1)"
  have d1: "getTableDescriptionInfo svc (tableName cfg) dynamodbDocClient ?t0 = (r1, ?t1)"
    using getTableDescriptionInfo_trace[of svc "tableName cfg" dynamodbDocClient ?t0]
    by (simp add: prod_eq_iff r1_def)
  have d2: "getTableDescriptionInfo svc (tableName cfg) dynamodbLocalDocClient ?t1 = (r2, ?t2)"
    using getTableDescriptionInfo_trace[of svc "tableName cfg" dynamodbLocalDocClient ?t1]
    by (simp add: prod_eq_iff r2_def)
  show ?thesis
  proof (cases r1)
    case (Inl e)
    then show ?thesis using d1
      by (simp add: exportAndImportDynamoDBTable_def exportAndImport_try_def)
  next
    case r1: (Inr remoteOpt)
    show ?thesis
    proof (cases remoteOpt)
      case None
      then show ?thesis using d1 r1
        by (simp add: exportAndImportDynamoDBTable_def exportAndImport_try_def)
    next
      case (Some remoteDesc)
      show ?thesis
      proof (cases r2)
        case (Inl e)
        then show ?thesis using d1 r1 Some d2
          by (simp add: exportAndImportDynamoDBTable_def exportAndImport_try_def)
      next
        case r2: (Inr localDesc)
        obtain r3 new1 where c: "createLocalTableIfAbsent svc localDesc remoteDesc ?t2 = (r3, ?t2 @ new1)"
          and c1: "scanCalls new1 = []" "batchWriteCalls new1 = []" "consoleErrors new1 = []"
          using createLocalTableIfAbsent_shape[of svc localDesc remoteDesc ?t2] by blast
        show ?thesis
        proof (cases r3)
          case (Inl e)
          then show ?thesis using d1 r1 Some d2 r2 c c1
            by (simp add: exportAndImportDynamoDBTable_def exportAndImport_try_def scanCalls_append)
        next
          case r3: (Inr u)
          let ?pre = "[ConsoleLog banner_message, ?D1, ?D2] @ new1"
          obtain r4 rest4 where s: "scanAndImport svc cfg (?t2 @ new1) = Some (r4, (?t2 @ new1) @ ?Scan # rest4)"
            and s1: "scanCalls rest4 = []"
            and s2: "\<forall>resp. svc (?t2 @ new1) dynamodbClient (ScanCommand (tableName cfg)) = Inr resp
                  \<and> (Items resp = None \<or> Items resp = Some []) \<longrightarrow>
                 r4 = Inr () \<and> rest4 = [ConsoleLog (empty_table_message (tableName cfg))]"
            using scanAndImport_shape[of svc cfg "?t2 @ new1"] by blast
          have pre: "scanCalls ?pre = []" "batchWriteCalls ?pre = []" "consoleErrors ?pre = []"
            using c1 by (simp_all add: scanCalls_append batchWriteCalls_append consoleErrors_append)
          have tpre: "tr @ ?pre = ?t2 @ new1" by simp
          show ?thesis
          proof (cases r4)
            case (Inl e)
            hence run: "exportAndImportDynamoDBTable svc cfg tr = Some (tr @ (?pre @ ?Scan # (rest4 @ [ConsoleError e])))"
              using d1 r1 Some d2 r2 c r3 s
              by (simp add: exportAndImportDynamoDBTable_def exportAndImport_try_def)
            have "scanCalls (rest4 @ [ConsoleError e]) = []" using s1 by (simp add: scanCalls_append)
            moreover have "\<forall>resp. svc (tr @ ?pre) dynamodbClient (ScanCommand (tableName cfg)) = Inr resp
                            \<and> (Items resp = None \<or> Items resp = Some []) \<longrightarrow>
                          rest4 @ [ConsoleError e] = [ConsoleLog (empty_table_message (tableName cfg))]"
              using s2 Inl unfolding tpre by blast
            ultimately show ?thesis using run pre by blast
          next
            case (Inr u')
            hence run: "exportAndImportDynamoDBTable svc cfg tr = Some (tr @ (?pre @ ?Scan # rest4))"
              using d1 r1 Some d2 r2 c r3 s
              by (simp add: exportAndImportDynamoDBTable_def exportAndImport_try_def)
            have "\<forall>resp. svc (tr @ ?pre) dynamodbClient (ScanCommand (tableName cfg)) = Inr resp
                            \<and> (Items resp = None \<or> Items resp = Some []) \<longrightarrow>
                          rest4 = [ConsoleLog (empty_table_message (tableName cfg))]"
              using s2 unfolding tpre by blast
            then show ?thesis using run pre s1 by blast
          qed
        qed
      qed
    qed
  qed
qed


text \<open>
  C7. Every run returns, and in every run where the scan of the remote table is reached
  (after the events \<open>h\<close>) and yields no items (\<open>Items\<close> missing or empty), the only thing
  that follows the scan is the log line saying the table is empty: the run issues no
  batch-write call and prints no error.
\<close>

theorem empty_scan_short_circuit:
  fixes svc :: "('tbl, 'item) service"
  shows "\<exists>new. exportAndImportDynamoDBTable svc cfg tr = Some (tr @ new)
           \<and> (\<forall>h rest resp.
                 new = h @ Send dynamodbClient (ScanCommand (tableName cfg)) # rest
               \<and> svc (tr @ h) dynamodbClient (ScanCommand (tableName cfg)) = Inr resp
               \<and> (Items resp = None \<or> Items resp = Some []) \<longrightarrow>
                 rest = [ConsoleLog (empty_table_message (tableName cfg))]
               \<and> batchWriteCalls new = [] \<and> consoleErrors new = [])"
proof -
  let ?Scan = "Send dynamodbClient (ScanCommand (tableName cfg)) :: ('tbl, 'item) event"
  from exportAndImport_shape[of svc cfg tr]
  obtain new where run: "exportAndImportDynamoDBTable svc cfg tr = Some (tr @ new)"
    and shape: "scanCalls new = []
              \<or> (\<exists>pre rest. new = pre @ ?Scan # rest
                    \<and> scanCalls pre = [] \<and> scanCalls rest = []
                    \<and> batchWriteCalls pre = [] \<and> consoleErrors pre = []
                    \<and> (\<forall>resp. svc (tr @ pre) dynamodbClient (ScanCommand (tableName cfg)) = Inr resp
                            \<and> (Items resp = None \<or> Items resp = Some []) \<longrightarrow>
                          rest = [ConsoleLog (empty_table_message (tableName cfg))]))"
    by blast
  have "rest = [ConsoleLog (empty_table_message (tableName cfg))]
               \<and> batchWriteCalls new = [] \<and> consoleErrors new = []"
    if split: "new = h @ ?Scan # rest"
      and resp: "svc (tr @ h) dynamodbClient (ScanCommand (tableName cfg)) = Inr resp"
      and empty: "Items resp = None \<or> Items resp = Some []" for h rest resp
  proof -
    have "scanCalls new \<noteq> []" using split by (simp add: scanCalls_append)
    with shape obtain pre rest0 where new: "new = pre @ ?Scan # rest0"
      and p: "scanCalls pre = []" "scanCalls rest0 = []" "batchWriteCalls pre = []" "consoleErrors pre = []"
      and e: "\<forall>resp. svc (tr @ pre) dynamodbClient (ScanCommand (tableName cfg)) = Inr resp
                            \<and> (Items resp = None \<or> Items resp = Some []) \<longrightarrow>
                          rest0 = [ConsoleLog (empty_table_message (tableName cfg))]"
      by blast
    from split new have "h @ ?Scan # rest = pre @ ?Scan # rest0" by simp
    from scan_split_unique[OF this p(1,2)] have hp: "h = pre" "rest = rest0" by simp_all
    with e resp empty have r: "rest = [ConsoleLog (empty_table_message (tableName cfg))]" by blast
    show ?thesis using r new hp p
      by (simp add: batchWriteCalls_append consoleErrors_append)
  qed
  with run show ?thesis by blast
qed


theorem empty_scan_short_circuit_witness:
  "\<exists>new h rest resp.
      exportAndImportDynamoDBTable (example_service True True [])
        \<lparr>tableName = ''T'', limit = 500\<rparr> [] = Some new
    \<and> new = h @ Send dynamodbClient (ScanCommand ''T'') # rest
    \<and> example_service True True [] h dynamodbClient (ScanCommand ''T'') = Inr resp
    \<and> (Items resp = None \<or> Items resp = Some [])
    \<and> rest = [ConsoleLog (empty_table_message ''T'')]
    \<and> batchWriteCalls new = [] \<and> consoleErrors new = []"
proof -
  let ?svc = "example_service True True []"
  let ?cfg = "\<lparr>tableName = ''T'', limit = 500\<rparr>"
  let ?h = "[ConsoleLog banner_message, Send dynamodbDocClient (DescribeTableCommand ''T''),
             Send dynamodbLocalDocClient (DescribeTableCommand ''T'')] :: (nat, nat) event list"
  let ?rest = "[ConsoleLog (empty_table_message ''T'')] :: (nat, nat) event list"
  let ?resp = "\<lparr>Table = None :: nat option, Items = Some ([] :: nat list)\<rparr>"
  have run: "exportAndImportDynamoDBTable ?svc ?cfg []
               = Some (?h @ Send dynamodbClient (ScanCommand ''T'') # ?rest)"
    by (simp add: exportAndImportDynamoDBTable_def exportAndImport_try_def
          getTableDescriptionInfo_def send_def createLocalTableIfAbsent_def scanAndImport_def
          example_service_def)
  from empty_scan_short_circuit[of ?svc ?cfg "[]"] run
  have all: "\<forall>h rest resp.
               ?h @ Send dynamodbClient (ScanCommand ''T'') # ?rest
                 = h @ Send dynamodbClient (ScanCommand (tableName ?cfg)) # rest
             \<and> ?svc ([] @ h) dynamodbClient (ScanCommand (tableName ?cfg)) = Inr resp
             \<and> (Items resp = None \<or> Items resp = Some []) \<longrightarrow>
               rest = [ConsoleLog (empty_table_message (tableName ?cfg))]
             \<and> batchWriteCalls (?h @ Send dynamodbClient (ScanCommand ''T'') # ?rest) = []
             \<and> consoleErrors (?h @ Send dynamodbClient (ScanCommand ''T'') # ?rest) = []"
    by auto
  have resp: "?svc ([] @ ?h) dynamodbClient (ScanCommand (tableName ?cfg)) = Inr ?resp"
    by (simp add: example_service_def)
  from all[rule_format, of ?h ?rest ?resp] resp
  have "batchWriteCalls (?h @ Send dynamodbClient (ScanCommand ''T'') # ?rest) = []
      \<and> consoleErrors (?h @ Send dynamodbClient (ScanCommand ''T'') # ?rest) = []"
    by simp
  with run resp show ?thesis by (intro exI[of _ "?h @ Send dynamodbClient (ScanCommand ''T'') # ?rest"] exI[of _ ?h] exI[of _ ?rest] exI[of _ ?resp]) simp
qed



section \<open>Properties of the environment collector\<close>

lemma variableVisits_append: "variableVisits (xs @ ys) = variableVisits xs @ variableVisits ys"
  by (induction xs rule: variableVisits.induct) (simp_all split: option.splits)

lemma configurationCalls_append:
  "configurationCalls (xs @ ys) = configurationCalls xs @ configurationCalls ys"
  by (induction xs rule: configurationCalls.induct) simp_all

lemma extends_refl: "extends st st"
  by (simp add: extends_def)

lemma extends_trans: "extends a b \<Longrightarrow> extends b c \<Longrightarrow> extends a c"
  by (auto simp: extends_def variableVisits_append configurationCalls_append)

lemma extends_collect:
  "collectFunctionVariables lam resource page st = (r, st') \<Longrightarrow> extends st st'"
  by (auto simp: collectFunctionVariables_def Let_def extends_def split: sum.splits option.splits)

lemma extends_complete: "extends st (completeStack name page st)"
  by (simp add: completeStack_def Let_def extends_def)

lemma extends_list_call:
  "extends st (st\<lparr>events := events st @ [ListStackResourcesCall name r]\<rparr>)"
  by (simp add: extends_def)

lemma forEachResource_extends:
  assumes rec: "\<And>name nst s r s'. listStackResources fuel cf lam name nst s = Some (r, s') \<Longrightarrow> extends s s'"
  shows "forEachResource fuel cf lam nested rs page st = Some (rp, st') \<Longrightarrow> extends st st'"
proof (induction rs arbitrary: page st)
  case Nil
  then show ?case by (simp add: extends_refl)
next
  case (Cons resource rest)
  let ?nestedCall = "if ResourceType resource = ''AWS::CloudFormation::Stack'' \<and> nested
            then listStackResources fuel cf lam
                   (index (split_on CHR ''/'' (PhysicalResourceId resource)) 1) True st
            else Some (Inr (), st)"
  from Cons.prems obtain r1 st1 where n: "?nestedCall = Some (r1, st1)"
    by (cases ?nestedCall) (auto simp del: split_on.simps)
  have e1: "extends st st1" using n rec by (auto split: if_splits simp: extends_refl simp del: split_on.simps)
  show ?case
  proof (cases r1)
    case (Inl e)
    then show ?thesis using Cons.prems n e1 by (simp del: split_on.simps)
  next
    case (Inr u)
    let ?visit = "if ResourceType resource = ''AWS::Lambda::Function''
                 then collectFunctionVariables lam resource page st1
                 else (Inr page, st1)"
    obtain r2 st2 where v: "?visit = (r2, st2)" by (cases ?visit) auto
    have e2: "extends st1 st2" using v extends_collect by (auto split: if_splits simp: extends_refl)
    show ?thesis
    proof (cases r2)
      case (Inl e)
      then show ?thesis using Cons.prems n Inr v e1 e2 by (auto simp del: split_on.simps intro: extends_trans)
    next
      case r2: (Inr page')
      hence "forEachResource fuel cf lam nested rest page' st2 = Some (rp, st')"
        using Cons.prems n Inr v by (simp del: split_on.simps)
      from Cons.IH[OF this] e1 e2 show ?thesis by (blast intro: extends_trans)
    qed
  qed
qed

lemma listStackResources_extends:
  "listStackResources fuel cf lam name nested st = Some (r, st') \<Longrightarrow> extends st st'"
proof (induction fuel arbitrary: name nested st r st')
  case 0
  then show ?case by simp
next
  case (Suc fuel)
  let ?r = "cf (events st) name"
  let ?st1 = "st\<lparr>events := events st @ [ListStackResourcesCall name ?r]\<rparr>"
  have e1: "extends st ?st1" by (rule extends_list_call)
  show ?case
  proof (cases ?r)
    case (Inl e)
    then show ?thesis using Suc.prems e1 by (simp add: Let_def)
  next
    case (Inr out)
    show ?thesis
    proof (cases "StackResourceSummaries out")
      case None
      then show ?thesis using Suc.prems Inr e1 by (simp add: Let_def)
    next
      case (Some summaries)
      show ?thesis
      proof (cases "forEachResource fuel cf lam nested summaries [] ?st1")
        case None
        then show ?thesis using Suc.prems Inr Some by (simp add: Let_def)
      next
        case fe: (Some a)
        obtain rp st2 where a: "a = (rp, st2)" by (cases a)
        have e2: "extends ?st1 st2"
        proof (rule forEachResource_extends[where fuel = fuel and cf = cf and lam = lam])
          show "\<And>name nst s r s'. listStackResources fuel cf lam name nst s = Some (r, s')
                  \<Longrightarrow> extends s s'"
            by (rule Suc.IH)
          show "forEachResource fuel cf lam nested summaries [] ?st1 = Some (rp, st2)"
            using fe a by simp
        qed
        show ?thesis
        proof (cases rp)
          case (Inl e)
          then show ?thesis using Suc.prems Inr Some fe a e1 e2
            by (auto simp: Let_def intro: extends_trans)
        next
          case (Inr page)
          hence "st' = completeStack name page st2" using Suc.prems \<open>?r = Inr out\<close> Some fe a
            by (simp add: Let_def)
          then show ?thesis using e1 e2 extends_complete[of st2 name page]
            by (blast intro: extends_trans)
        qed
      qed
    qed
  qed
qed


text \<open>
  The fuel only bounds the nesting depth: a traversal that returns with some fuel returns
  the same result with more.
\<close>

lemma forEachResource_more_fuel:
  assumes rec: "\<And>name nst s r. listStackResources fuel cf lam name nst s = Some r
                  \<Longrightarrow> listStackResources (Suc fuel) cf lam name nst s = Some r"
  shows "forEachResource fuel cf lam nested rs page st = Some rp
         \<Longrightarrow> forEachResource (Suc fuel) cf lam nested rs page st = Some rp"
proof (induction rs arbitrary: page st)
  case Nil
  then show ?case by simp
next
  case (Cons resource rest)
  let ?name = "index (split_on CHR ''/'' (PhysicalResourceId resource)) 1"
  show ?case
  proof (cases "ResourceType resource = ''AWS::CloudFormation::Stack'' \<and> nested")
    case True
    then obtain r1 where n: "listStackResources fuel cf lam ?name True st = Some r1"
      using Cons.prems by (cases "listStackResources fuel cf lam ?name True st") (auto simp del: split_on.simps)
    hence n': "listStackResources (Suc fuel) cf lam ?name True st = Some r1" by (rule rec)
    show ?thesis using Cons.prems True n Cons.IH
      by (simp only: forEachResource.simps n' if_True)
         (auto simp del: split_on.simps listStackResources.simps split: sum.splits prod.splits if_splits)
  next
    case False
    then show ?thesis using Cons.prems Cons.IH
      by (simp only: forEachResource.simps if_False)
         (auto simp del: split_on.simps listStackResources.simps split: sum.splits prod.splits if_splits)
  qed
qed

lemma listStackResources_more_fuel:
  "listStackResources fuel cf lam name nested st = Some r
   \<Longrightarrow> listStackResources (Suc fuel) cf lam name nested st = Some r"
proof (induction fuel arbitrary: name nested st r)
  case 0
  then show ?case by simp
next
  case (Suc fuel)
  have fe: "forEachResource (Suc fuel) cf lam nested rs page s = Some rp"
    if "forEachResource fuel cf lam nested rs page s = Some rp" for rs page s rp
    using forEachResource_more_fuel[where fuel = fuel and cf = cf and lam = lam, OF Suc.IH that] .
  show ?case using Suc.prems
    by (subst listStackResources.simps)
       (auto simp: Let_def split: sum.splits option.splits prod.splits dest!: fe)
qed


lemma foldl_map_add_unset:
  "\<forall>w \<in> set ws. w X = None \<Longrightarrow> foldl (++) m ws X = m X"
  by (induction ws arbitrary: m) (simp_all add: map_add_def)

lemma foldl_map_add_last_write:
  assumes "vars2 X = Some v2" "\<forall>w \<in> set ws. w X = None"
  shows "foldl (++) m (vs @ [vars2] @ ws) X = Some v2"
  using assms by (simp add: foldl_map_add_unset)


lemma extends_events: "extends a b \<Longrightarrow> \<exists>new. events b = events a @ new"
  by (auto simp: extends_def)

lemma extends_count:
  "extends a b \<Longrightarrow> functionCount b
     = functionCount a + length (configurationCalls (drop (length (events a)) (events b)))"
  by (auto simp: extends_def)

lemma listStackResources_success:
  assumes "listStackResources fuel cf lam name nested st = Some (Inr (), st')"
  shows "\<exists>fuel' out summaries page st2.
           fuel = Suc fuel'
         \<and> cf (events st) name = Inr out \<and> StackResourceSummaries out = Some summaries
         \<and> forEachResource fuel' cf lam nested summaries []
              (st\<lparr>events := events st @ [ListStackResourcesCall name (Inr out)]\<rparr>)
              = Some (Inr page, st2)
         \<and> st' = completeStack name page st2"
proof (cases fuel)
  case 0
  then show ?thesis using assms by simp
next
  case (Suc fuel')
  then show ?thesis using assms
    by (auto simp: Let_def split: sum.splits option.splits)
qed

lemma completeStack_events:
  "events (completeStack name page st)
     = events st @ [Log (''completed stack: '' @ js_string_of name),
                    Log (''functionCount: '' @ string_of_nat (functionCount st))]"
  by (simp add: completeStack_def Let_def)

lemma completeStack_count: "functionCount (completeStack name page st) = functionCount st"
  by (simp add: completeStack_def Let_def)

lemma forEachResource_nested_run:
  assumes run: "forEachResource fuel cf lam True rs page st = Some (Inr page', st')"
    and res: "resource \<in> set rs" "ResourceType resource = ''AWS::CloudFormation::Stack''"
  shows "\<exists>s1 s2. listStackResources fuel cf lam
                    (index (split_on CHR ''/'' (PhysicalResourceId resource)) 1) True s1
                    = Some (Inr (), s2)
               \<and> extends st s1 \<and> extends s2 st'"
  using run res(1)
proof (induction rs arbitrary: page st)
  case Nil
  then show ?case by simp
next
  case (Cons r rest)
  let ?nestedCall = "if ResourceType r = ''AWS::CloudFormation::Stack'' \<and> True
            then listStackResources fuel cf lam
                   (index (split_on CHR ''/'' (PhysicalResourceId r)) 1) True st
            else Some (Inr (), st)"
  from Cons.prems(1) obtain r1 st1 where n: "?nestedCall = Some (r1, st1)"
    by (cases ?nestedCall) (auto simp del: split_on.simps)
  have r1: "r1 = Inr ()" using Cons.prems(1) n by (cases r1) (simp_all del: split_on.simps)
  have e1: "extends st st1"
    using n listStackResources_extends by (auto split: if_splits simp: extends_refl simp del: split_on.simps)
  let ?visit = "if ResourceType r = ''AWS::Lambda::Function''
                 then collectFunctionVariables lam r page st1
                 else (Inr page, st1)"
  obtain r2 st2 where v: "?visit = (r2, st2)" by (cases ?visit) auto
  have e2: "extends st1 st2" using v extends_collect by (auto split: if_splits simp: extends_refl)
  obtain page2 where r2: "r2 = Inr page2"
    using Cons.prems(1) n r1 v by (cases r2) (simp_all del: split_on.simps)
  have tail: "forEachResource fuel cf lam True rest page2 st2 = Some (Inr page', st')"
    using Cons.prems(1) n r1 v r2 by (simp del: split_on.simps)
  have e3: "extends st2 st'"
    using forEachResource_extends[where fuel = fuel and cf = cf and lam = lam, OF _ tail]
      listStackResources_extends by blast
  show ?case
  proof (cases "resource = r")
    case True
    hence "listStackResources fuel cf lam
             (index (split_on CHR ''/'' (PhysicalResourceId resource)) 1) True st = Some (Inr (), st1)"
      using n r1 res(2) by (simp del: split_on.simps)
    moreover have "extends st1 st'" using e2 e3 by (rule extends_trans)
    ultimately show ?thesis using extends_refl by blast
  next
    case False
    hence "resource \<in> set rest" using Cons.prems(2) by simp
    from Cons.IH[OF tail this] obtain s1 s2 where
      c: "listStackResources fuel cf lam
            (index (split_on CHR ''/'' (PhysicalResourceId resource)) 1) True s1 = Some (Inr (), s2)"
      and a: "extends st2 s1" and b: "extends s2 st'" by blast
    have "extends st s1" using e1 e2 a by (blast intro: extends_trans)
    then show ?thesis using c b by blast
  qed
qed

lemma added_events_trans:
  "extends a b \<Longrightarrow> extends b c \<Longrightarrow>
   drop (length (events a)) (events c)
     = drop (length (events a)) (events b) @ drop (length (events b)) (events c)"
  by (auto simp: extends_def)

lemma collect_configuration_call:
  "collectFunctionVariables lam r page st = (res, st') \<Longrightarrow>
   configurationCalls (drop (length (events st)) (events st')) = [PhysicalResourceId r]"
  by (auto simp: collectFunctionVariables_def Let_def split: sum.splits option.splits)

lemma forEachResource_visits:
  assumes run: "forEachResource fuel cf lam nested rs page st = Some (Inr page', st')"
    and res: "r \<in> set rs" "ResourceType r = ''AWS::Lambda::Function''"
  shows "PhysicalResourceId r \<in> set (configurationCalls (drop (length (events st)) (events st')))"
  using run res(1)
proof (induction rs arbitrary: page st)
  case Nil
  then show ?case by simp
next
  case (Cons r0 rest)
  let ?nestedCall = "if ResourceType r0 = ''AWS::CloudFormation::Stack'' \<and> nested
            then listStackResources fuel cf lam
                   (index (split_on CHR ''/'' (PhysicalResourceId r0)) 1) True st
            else Some (Inr (), st)"
  from Cons.prems(1) obtain r1 st1 where n: "?nestedCall = Some (r1, st1)"
    by (cases ?nestedCall) (auto simp del: split_on.simps)
  have r1: "r1 = Inr ()" using Cons.prems(1) n by (cases r1) (simp_all del: split_on.simps)
  have e1: "extends st st1"
    using n listStackResources_extends by (auto split: if_splits simp: extends_refl simp del: split_on.simps)
  let ?visit = "if ResourceType r0 = ''AWS::Lambda::Function''
                 then collectFunctionVariables lam r0 page st1
                 else (Inr page, st1)"
  obtain r2 st2 where v: "?visit = (r2, st2)" by (cases ?visit) auto
  have e2: "extends st1 st2" using v extends_collect by (auto split: if_splits simp: extends_refl)
  obtain page2 where r2: "r2 = Inr page2"
    using Cons.prems(1) n r1 v by (cases r2) (simp_all del: split_on.simps)
  have tail: "forEachResource fuel cf lam nested rest page2 st2 = Some (Inr page', st')"
    using Cons.prems(1) n r1 v r2 by (simp del: split_on.simps)
  have e3: "extends st2 st'"
    using forEachResource_extends[where fuel = fuel and cf = cf and lam = lam, OF _ tail]
      listStackResources_extends by blast
  have e12: "extends st st2" using e1 e2 by (rule extends_trans)
  have split: "drop (length (events st)) (events st')
          = drop (length (events st)) (events st1)
            @ drop (length (events st1)) (events st2) @ drop (length (events st2)) (events st')"
    using added_events_trans[OF e12 e3] added_events_trans[OF e1 e2] by simp
  show ?case
  proof (cases "r = r0")
    case True
    hence "collectFunctionVariables lam r page st1 = (r2, st2)" using v res(2) by simp
    from collect_configuration_call[OF this] show ?thesis
      unfolding split by (simp add: configurationCalls_append)
  next
    case False
    hence "r \<in> set rest" using Cons.prems(2) by simp
    from Cons.IH[OF tail this] show ?thesis
      unfolding split by (simp add: configurationCalls_append)
  qed
qed


text \<open>
  C9. In every completed traversal of a stack \<open>parent\<close> whose listing contains a
  nested-stack resource pointing to \<open>child\<close>, the traversal of \<open>child\<close> is itself a
  completed run of \<open>listStackResources\<close>, from a state \<open>s1\<close> after the parent's listing to
  a state \<open>s2\<close>; in that run every Lambda function the child's listing holds has its
  configuration fetched and is counted, and the run ends with the child's own summary
  lines; and all events of \<open>s2\<close> come before the parent's two summary lines, which are
  the last events of the parent's traversal and print a count that includes the child's.
\<close>

theorem nested_stack_completes_before_parent:
  assumes run: "listStackResources fuel cloudformation lambda parent True st = Some (Inr (), st')"
    and listing: "cloudformation (events st) parent = Inr out"
                 "StackResourceSummaries out = Some summaries"
    and nestedStack: "resource \<in> set summaries"
                     "ResourceType resource = ''AWS::CloudFormation::Stack''"
    and child: "child = index (split_on CHR ''/'' (PhysicalResourceId resource)) 1"
  shows "\<exists>fuel' s1 s2 before childEvents between.
           listStackResources fuel' cloudformation lambda child True s1 = Some (Inr (), s2)
         \<and> events s1 = events st @ ListStackResourcesCall parent (Inr out) # before
         \<and> events s2 = events s1 @ childEvents
         \<and> (\<forall>outC summariesC r.
                cloudformation (events s1) child = Inr outC
              \<and> StackResourceSummaries outC = Some summariesC
              \<and> r \<in> set summariesC \<and> ResourceType r = ''AWS::Lambda::Function'' \<longrightarrow>
                PhysicalResourceId r \<in> set (configurationCalls childEvents))
         \<and> functionCount s2 = functionCount s1 + length (configurationCalls childEvents)
         \<and> (\<exists>evs. childEvents = evs @ [Log (''completed stack: '' @ js_string_of child),
                                        Log (''functionCount: '' @ string_of_nat (functionCount s2))])
         \<and> events st' = events s2 @ between
                           @ [Log (''completed stack: '' @ js_string_of parent),
                              Log (''functionCount: '' @ string_of_nat (functionCount st'))]
         \<and> functionCount s2 \<le> functionCount st'"
proof -
  let ?st1 = "st\<lparr>events := events st @ [ListStackResourcesCall parent (Inr out)]\<rparr>"
  from listStackResources_success[OF run] listing
  obtain fuel' page st2 where fuel: "fuel = Suc fuel'"
    and loop: "forEachResource fuel' cloudformation lambda True summaries [] ?st1 = Some (Inr page, st2)"
    and st': "st' = completeStack parent page st2"
    by auto
  from forEachResource_nested_run[OF loop nestedStack]
  obtain s1 s2 where c: "listStackResources fuel' cloudformation lambda child True s1 = Some (Inr (), s2)"
    and a: "extends ?st1 s1" and b: "extends s2 st2"
    unfolding child by blast
  obtain before where before: "events s1 = events st @ ListStackResourcesCall parent (Inr out) # before"
    using extends_events[OF a] by auto
  obtain between where between: "events st2 = events s2 @ between"
    using extends_events[OF b] by auto
  have cext: "extends s1 s2" using listStackResources_extends[OF c] .
  obtain childEvents where ce: "events s2 = events s1 @ childEvents"
    using extends_events[OF cext] by auto
  have cnt: "functionCount s2 = functionCount s1 + length (configurationCalls childEvents)"
    using extends_count[OF cext] ce by simp
  from listStackResources_success[OF c]
  obtain f2 outC summariesC pageC sC where
    lc: "cloudformation (events s1) child = Inr outC" "StackResourceSummaries outC = Some summariesC"
    and loopC: "forEachResource f2 cloudformation lambda True summariesC []
                  (s1\<lparr>events := events s1 @ [ListStackResourcesCall child (Inr outC)]\<rparr>)
                  = Some (Inr pageC, sC)"
    and s2: "s2 = completeStack child pageC sC"
    by auto
  have visited: "PhysicalResourceId r \<in> set (configurationCalls childEvents)"
    if "r \<in> set summariesC" "ResourceType r = ''AWS::Lambda::Function''" for r
  proof -
    let ?s1' = "s1\<lparr>events := events s1 @ [ListStackResourcesCall child (Inr outC)]\<rparr>"
    have "PhysicalResourceId r \<in> set (configurationCalls (drop (length (events ?s1')) (events sC)))"
      by (rule forEachResource_visits[OF loopC that])
    moreover have "extends ?s1' sC"
      using forEachResource_extends[where fuel = f2 and cf = cloudformation and lam = lambda, OF _ loopC]
        listStackResources_extends by blast
    then obtain n1 where n1: "events sC = events ?s1' @ n1" using extends_events by blast
    have "events s1 @ childEvents
            = events s1 @ (ListStackResourcesCall child (Inr outC) # n1
                @ [Log (''completed stack: '' @ js_string_of child),
                   Log (''functionCount: '' @ string_of_nat (functionCount sC))])"
      using ce s2 n1 by (simp add: completeStack_events)
    hence "childEvents = ListStackResourcesCall child (Inr outC) # n1
                @ [Log (''completed stack: '' @ js_string_of child),
                   Log (''functionCount: '' @ string_of_nat (functionCount sC))]"
      by (simp only: same_append_eq)
    ultimately show ?thesis using n1 by (simp add: configurationCalls_append)
  qed
  have tailC: "\<exists>evs. childEvents = evs @ [Log (''completed stack: '' @ js_string_of child),
                                        Log (''functionCount: '' @ string_of_nat (functionCount s2))]"
  proof -
    have "extends s1 sC"
      using forEachResource_extends[where fuel = f2 and cf = cloudformation and lam = lambda, OF _ loopC]
        listStackResources_extends extends_list_call[of s1 child "Inr outC"] 
      by (blast intro: extends_trans)
    then obtain n1 where n1: "events sC = events s1 @ n1" using extends_events by blast
    have "events s1 @ childEvents
            = events s1 @ (n1 @ [Log (''completed stack: '' @ js_string_of child),
                                 Log (''functionCount: '' @ string_of_nat (functionCount s2))])"
      using ce s2 n1 by (simp add: completeStack_events completeStack_count)
    hence "childEvents = n1 @ [Log (''completed stack: '' @ js_string_of child),
                               Log (''functionCount: '' @ string_of_nat (functionCount s2))]"
      by (simp only: same_append_eq)
    thus ?thesis by blast
  qed
  have final: "events st' = events s2 @ between
                           @ [Log (''completed stack: '' @ js_string_of parent),
                              Log (''functionCount: '' @ string_of_nat (functionCount st'))]"
    using st' between by (simp add: completeStack_events completeStack_count)
  have le: "functionCount s2 \<le> functionCount st'"
    using extends_count[OF b] st' by (simp add: completeStack_count)
  have vis: "\<forall>outC' summariesC' r.
                cloudformation (events s1) child = Inr outC'
              \<and> StackResourceSummaries outC' = Some summariesC'
              \<and> r \<in> set summariesC' \<and> ResourceType r = ''AWS::Lambda::Function'' \<longrightarrow>
                PhysicalResourceId r \<in> set (configurationCalls childEvents)"
    using lc visited by auto
  show ?thesis using c before ce vis cnt tailC final le by blast
qed


theorem nested_stack_completes_before_parent_witness:
  "\<exists>st' out resource.
      listStackResources (Suc (Suc 0)) example_cloudformation example_lambda
        (Some ''parent'') True initial_state = Some (Inr (), st')
    \<and> example_cloudformation (events initial_state) (Some ''parent'') = Inr out
    \<and> StackResourceSummaries out = Some parent_resources
    \<and> resource \<in> set parent_resources
    \<and> ResourceType resource = ''AWS::CloudFormation::Stack''
    \<and> Some ''child'' = index (split_on CHR ''/'' (PhysicalResourceId resource)) 1
    \<and> (\<exists>fuel' s1 s2 before childEvents between.
           listStackResources fuel' example_cloudformation example_lambda (Some ''child'') True s1
             = Some (Inr (), s2)
         \<and> events s1
             = events initial_state @ ListStackResourcesCall (Some ''parent'') (Inr out) # before
         \<and> events s2 = events s1 @ childEvents
         \<and> functionCount s2 = functionCount s1 + length (configurationCalls childEvents)
         \<and> (\<exists>evs. childEvents
                    = evs @ [Log (''completed stack: '' @ js_string_of (Some ''child'')),
                             Log (''functionCount: '' @ string_of_nat (functionCount s2))])
         \<and> events st' = events s2 @ between
                           @ [Log (''completed stack: '' @ js_string_of (Some ''parent'')),
                              Log (''functionCount: '' @ string_of_nat (functionCount st'))]
         \<and> functionCount s2 \<le> functionCount st')"
proof -
  define res where "res = listStackResources (Suc (Suc 0)) example_cloudformation example_lambda
           (Some ''parent'') True initial_state"
  define st' where "st' = snd (the res)"
  let ?nested = "\<lparr>ResourceType = ''AWS::CloudFormation::Stack'',
                  PhysicalResourceId = ''arn:stack/child/1'', LogicalResourceId = ''Nested''\<rparr>"
  let ?out = "\<lparr>StackResourceSummaries = Some parent_resources\<rparr>"
  have run: "listStackResources (Suc (Suc 0)) example_cloudformation example_lambda
           (Some ''parent'') True initial_state = Some (Inr (), st')"
    unfolding st'_def res_def
    by (simp add: example_cloudformation_def example_listing_def parent_resources_def
          example_lambda_def example_configuration_def
          initial_state_def collectFunctionVariables_def completeStack_def Let_def index_def)
  have listing: "example_cloudformation (events initial_state) (Some ''parent'') = Inr ?out"
    "StackResourceSummaries ?out = Some parent_resources"
    by (simp_all add: example_cloudformation_def example_listing_def)
  have nestedStack: "?nested \<in> set parent_resources"
    "ResourceType ?nested = ''AWS::CloudFormation::Stack''"
    by (simp_all add: parent_resources_def)
  have child: "Some ''child'' = index (split_on CHR ''/'' (PhysicalResourceId ?nested)) 1"
    by (simp add: index_def)
  from nested_stack_completes_before_parent[OF run listing nestedStack child]
  show ?thesis using run listing nestedStack child by blast
qed


subsection \<open>The order of the visits and the merge\<close>

lemma visitsOf_append:
  "visitsOf configuration (fs @ gs) = visitsOf configuration fs @ visitsOf configuration gs"
  by (induction fs) (simp_all split: sum.splits option.splits)

lemma visitsOf_value:
  "(F, vars) \<in> set (visitsOf configuration fs) \<Longrightarrow>
   F \<in> set fs \<and> variableOfFunction configuration F X = vars X"
  by (induction fs) (auto simp: variableOfFunction_def split: sum.splits option.splits)

lemma visitsOf_single:
  "variableOfFunction configuration F X = Some v \<Longrightarrow>
   \<exists>vars. visitsOf configuration [F] = [(F, vars)] \<and> vars X = Some v"
  by (auto simp: variableOfFunction_def split: sum.splits option.splits)

lemma answered_refl: "answered configuration st st []"
  by (simp add: answered_def)

lemma answered_trans:
  "answered configuration a b fs \<Longrightarrow> answered configuration b c gs
   \<Longrightarrow> answered configuration a c (fs @ gs)"
  by (auto simp: answered_def variableVisits_append configurationCalls_append visitsOf_append)

lemma answered_collect:
  "collectFunctionVariables (\<lambda>h. configuration) resource page st = (Inr page', st')
   \<Longrightarrow> answered configuration st st' [PhysicalResourceId resource]"
  by (auto simp: collectFunctionVariables_def Let_def answered_def variablesOf_def
           split: sum.splits option.splits)

lemma answered_complete: "answered configuration st (completeStack name page st) []"
  by (simp add: completeStack_def Let_def answered_def)

lemma answered_list_call:
  "answered configuration st (st\<lparr>events := events st @ [ListStackResourcesCall name r]\<rparr>) []"
  by (simp add: answered_def)

lemma forEachResource_answered:
  assumes rec: "\<And>name s s'. listStackResources fuel (\<lambda>h. listing) (\<lambda>h. configuration) name True s
                    = Some (Inr (), s')
                  \<Longrightarrow> answered configuration s s' (depthFirstFunctions fuel listing name True)"
  shows "forEachResource fuel (\<lambda>h. listing) (\<lambda>h. configuration) nested rs page st
           = Some (Inr page', st')
         \<Longrightarrow> answered configuration st st'
               (concat (map (\<lambda>resource.
                   (if ResourceType resource = ''AWS::CloudFormation::Stack'' \<and> nested
                    then depthFirstFunctions fuel listing
                           (index (split_on CHR ''/'' (PhysicalResourceId resource)) 1) True
                    else [])
                 @ (if ResourceType resource = ''AWS::Lambda::Function''
                    then [PhysicalResourceId resource] else []))
                 rs))"
proof (induction rs arbitrary: page st)
  case Nil
  then show ?case by (simp add: answered_refl)
next
  case (Cons r rest)
  let ?child = "index (split_on CHR ''/'' (PhysicalResourceId r)) 1"
  let ?nestedCall = "if ResourceType r = ''AWS::CloudFormation::Stack'' \<and> nested
            then listStackResources fuel (\<lambda>h. listing) (\<lambda>h. configuration) ?child True st
            else Some (Inr (), st)"
  let ?fs1 = "if ResourceType r = ''AWS::CloudFormation::Stack'' \<and> nested
              then depthFirstFunctions fuel listing ?child True else []"
  let ?fs2 = "if ResourceType r = ''AWS::Lambda::Function'' then [PhysicalResourceId r] else []"
  from Cons.prems obtain r1 st1 where n: "?nestedCall = Some (r1, st1)"
    by (cases ?nestedCall) (auto simp del: split_on.simps)
  have r1: "r1 = Inr ()" using Cons.prems n by (cases r1) (simp_all del: split_on.simps)
  have a1: "answered configuration st st1 ?fs1"
    using n r1 rec by (auto split: if_splits simp: answered_refl simp del: split_on.simps)
  let ?visit = "if ResourceType r = ''AWS::Lambda::Function''
                 then collectFunctionVariables (\<lambda>h. configuration) r page st1
                 else (Inr page, st1)"
  obtain r2 st2 where v: "?visit = (r2, st2)" by (cases ?visit) auto
  obtain page2 where r2: "r2 = Inr page2"
    using Cons.prems n r1 v by (cases r2) (simp_all del: split_on.simps)
  have a2: "answered configuration st1 st2 ?fs2"
    using v r2 answered_collect by (auto split: if_splits simp: answered_refl)
  have tail: "forEachResource fuel (\<lambda>h. listing) (\<lambda>h. configuration) nested rest page2 st2
                = Some (Inr page', st')"
    using Cons.prems n r1 v r2 by (simp del: split_on.simps)
  from answered_trans[OF answered_trans[OF a1 a2] Cons.IH[OF tail]]
  show ?case by (simp del: split_on.simps)
qed

lemma listStackResources_answered:
  "listStackResources fuel (\<lambda>h. listing) (\<lambda>h. configuration) name nested st = Some (Inr (), st')
   \<Longrightarrow> answered configuration st st' (depthFirstFunctions fuel listing name nested)"
proof (induction fuel arbitrary: name nested st st')
  case 0
  then show ?case by simp
next
  case (Suc fuel)
  from listStackResources_success[OF Suc.prems]
  obtain out summaries page st2 where
    l: "listing name = Inr out" "StackResourceSummaries out = Some summaries"
    and loop: "forEachResource fuel (\<lambda>h. listing) (\<lambda>h. configuration) nested summaries []
              (st\<lparr>events := events st @ [ListStackResourcesCall name (Inr out)]\<rparr>)
              = Some (Inr page, st2)"
    and st': "st' = completeStack name page st2"
    by auto
  have a1: "answered configuration st
              (st\<lparr>events := events st @ [ListStackResourcesCall name (Inr out)]\<rparr>) []"
    by (rule answered_list_call)
  have a2: "answered configuration
              (st\<lparr>events := events st @ [ListStackResourcesCall name (Inr out)]\<rparr>) st2
              (depthFirstFunctions (Suc fuel) listing name nested)"
    using forEachResource_answered[where fuel = fuel and listing = listing
            and configuration = configuration, OF Suc.IH loop] l
    by (simp del: split_on.simps)
  have a3: "answered configuration st2 st' []" unfolding st' by (rule answered_complete)
  from answered_trans[OF answered_trans[OF a1 a2] a3] show ?case by simp
qed


text \<open>
  C8, as the code behaves. The listings and the configurations are those of the stack
  (they do not change during the traversal). In every traversal that completes, if in
  stack-resource listing order, depth-first through nested stacks, the functions are some
  functions, then \<open>F1\<close>, then others, then \<open>F2\<close>, then functions that do not define \<open>X\<close>,
  and \<open>F1\<close> and \<open>F2\<close> define \<open>X\<close> with different values, then the final \<open>merged\<close> maps \<open>X\<close>
  to the value of \<open>F2\<close>: the last function in that order that defines \<open>X\<close> wins. The
  condition on the functions after \<open>F2\<close> is needed: with a third function after \<open>F2\<close> that
  defines \<open>X\<close>, \<open>merged\<close> holds the third one's value, as the example after the theorem
  shows.
\<close>

theorem env_merge_last_write_wins:
  assumes run: "listStackResources fuel (\<lambda>h. listing) (\<lambda>h. configuration) stackName nested st
                  = Some (Inr (), st')"
    and order: "depthFirstFunctions fuel listing stackName nested
                  = before @ [F1] @ between @ [F2] @ after"
    and X: "variableOfFunction configuration F1 X = Some v1"
           "variableOfFunction configuration F2 X = Some v2" "v1 \<noteq> v2"
    and last: "\<forall>F \<in> set after. variableOfFunction configuration F X = None"
  shows "merged st' X = Some v2"
proof -
  from listStackResources_answered[OF run] order
  obtain new where ev: "events st' = events st @ new"
    and vis: "variableVisits new = visitsOf configuration (before @ [F1] @ between @ [F2] @ after)"
    by (auto simp: answered_def)
  from listStackResources_extends[OF run] ev
  have m: "merged st' = foldl (++) (merged st) (map snd (variableVisits new))"
    by (auto simp: extends_def)
  obtain vars2 where v2: "visitsOf configuration [F2] = [(F2, vars2)]" "vars2 X = Some v2"
    using visitsOf_single[OF X(2)] by blast
  have split: "map snd (variableVisits new)
                 = map snd (visitsOf configuration (before @ [F1] @ between))
                   @ [vars2] @ map snd (visitsOf configuration after)"
  proof -
    have "before @ [F1] @ between @ [F2] @ after = (before @ [F1] @ between) @ [F2] @ after"
      by simp
    hence "visitsOf configuration (before @ [F1] @ between @ [F2] @ after)
             = visitsOf configuration (before @ [F1] @ between)
               @ visitsOf configuration [F2] @ visitsOf configuration after"
      by (simp only: visitsOf_append)
    thus ?thesis unfolding vis v2(1) by (simp del: visitsOf.simps)
  qed
  have none: "\<forall>w \<in> set (map snd (visitsOf configuration after)). w X = None"
  proof
    fix w assume "w \<in> set (map snd (visitsOf configuration after))"
    then obtain F where "(F, w) \<in> set (visitsOf configuration after)" by auto
    from visitsOf_value[OF this, of X] last show "w X = None" by auto
  qed
  show ?thesis
    unfolding m split
    by (rule foldl_map_add_last_write[where ?vars2.0 = vars2 and X = X and ?v2.0 = v2
               and ws = "map snd (visitsOf configuration after)", OF v2(2) none])
qed

theorem env_merge_last_write_wins_witness:
  "(case listStackResources (Suc (Suc 0)) (\<lambda>h. example_listing) (\<lambda>h. example_configuration)
           (Some ''parent'') True initial_state of
      None \<Rightarrow> False
    | Some (r, st') \<Rightarrow>
        r = Inr ()
      \<and> depthFirstFunctions (Suc (Suc 0)) example_listing (Some ''parent'') True
          = [] @ [''fn-a''] @ [''fn-c''] @ [''fn-b''] @ [''fn-d'']
      \<and> variableOfFunction example_configuration ''fn-a'' ''X'' = Some ''1''
      \<and> variableOfFunction example_configuration ''fn-b'' ''X'' = Some ''2''
      \<and> ''1'' \<noteq> ''2''
      \<and> variableOfFunction example_configuration ''fn-d'' ''X'' = None
      \<and> merged st' ''X'' = Some ''2'')"
proof -
  define res where "res = listStackResources (Suc (Suc 0)) (\<lambda>h. example_listing)
           (\<lambda>h. example_configuration) (Some ''parent'') True initial_state"
  define st' where "st' = snd (the res)"
  have run: "listStackResources (Suc (Suc 0)) (\<lambda>h. example_listing) (\<lambda>h. example_configuration)
           (Some ''parent'') True initial_state = Some (Inr (), st')"
    unfolding st'_def res_def
    by (simp add: example_listing_def parent_resources_def example_configuration_def
          initial_state_def collectFunctionVariables_def completeStack_def Let_def index_def)
  have order: "depthFirstFunctions (Suc (Suc 0)) example_listing (Some ''parent'') True
          = [] @ [''fn-a''] @ [''fn-c''] @ [''fn-b''] @ [''fn-d'']"
    by (simp add: example_listing_def parent_resources_def index_def)
  have X: "variableOfFunction example_configuration ''fn-a'' ''X'' = Some ''1''"
    "variableOfFunction example_configuration ''fn-b'' ''X'' = Some ''2''" "''1'' \<noteq> ''2''"
    by (simp_all add: variableOfFunction_def variablesOf_def example_configuration_def)
  have last: "\<forall>F \<in> set [''fn-d'']. variableOfFunction example_configuration F ''X'' = None"
    by (simp add: variableOfFunction_def variablesOf_def example_configuration_def)
  from env_merge_last_write_wins[OF run order X last]
  have "merged st' ''X'' = Some ''2''" .
  thus ?thesis using run order X last by simp
qed

text \<open>
  C8 without the condition on later functions fails: the stack lists \<open>f1\<close>, \<open>f2\<close>,
  \<open>f3\<close>; \<open>f1\<close> and \<open>f2\<close> define \<open>X\<close> as 1 and 2 and \<open>f2\<close> comes after \<open>f1\<close>, but \<open>f3\<close>
  defines \<open>X\<close> as 3 and the traversal ends with \<open>merged X = 3\<close>.
\<close>

theorem env_merge_claim_counterexample:
  "three_definers_run \<noteq> None
   \<and> fst (the three_definers_run) = Inr ()
   \<and> depthFirstFunctions (Suc 0) three_definers_listing (Some ''stack'') True
       = [''f1'', ''f2'', ''f3'']
   \<and> variableOfFunction three_definers_configuration ''f1'' ''X'' = Some ''1''
   \<and> variableOfFunction three_definers_configuration ''f2'' ''X'' = Some ''2''
   \<and> ''1'' \<noteq> ''2''
   \<and> merged (snd (the three_definers_run)) ''X'' = Some ''3''
   \<and> merged (snd (the three_definers_run)) ''X'' \<noteq> Some ''2''"
  by (simp add: three_definers_run_def three_definers_listing_def
        three_definers_configuration_def initial_state_def variableOfFunction_def
        variablesOf_def collectFunctionVariables_def completeStack_def Let_def index_def)


end
